(* ===== verification/Prelude.thy ===== *)
theory Prelude
  imports Main
begin

text \<open>
  Shared vocabulary of the development: the values the browser hands to the
  program (fetch results, JSON bodies), JavaScript truthiness on the optional
  strings the code reads, the task record of the collaborator, removal of a
  settled request from the requests in flight, and the lemma collection
  \<open>fetch_simps\<close> with which the component proofs unfold what a handler sees of
  a response.
\<close>

named_theorems fetch_simps \<open>unfoldings of what a handler observes of a fetch result\<close>

section \<open>JavaScript values the code observes\<close>

text \<open>
  A JavaScript string that may be \<open>undefined\<close> or \<open>null\<close> is a \<open>string option\<close>.
  The code tests it with \<open>!x\<close> and \<open>x || d\<close>: a missing value and the empty string
  are both falsy.
\<close>

type_synonym js_str = "string option"

definition js_truthy :: "js_str \<Rightarrow> bool" where
  "js_truthy x \<longleftrightarrow> (case x of None \<Rightarrow> False | Some s \<Rightarrow> s \<noteq> [])"

definition js_or :: "js_str \<Rightarrow> string \<Rightarrow> string" where
  "js_or x d = (case x of Some s \<Rightarrow> (if s \<noteq> [] then s else d) | None \<Rightarrow> d)"

section \<open>Results of fetch\<close>

text \<open>
  \<open>fetch\<close> either rejects (a network failure, with the message of the error it
  throws) or resolves to a response with a status; \<open>response.ok\<close> is a status
  in 200..299. Reading the body with \<open>response.json()\<close> either yields the
  parsed value or rejects with a parse error message.
\<close>

datatype 'a json_body = JsonValue 'a | JsonError string

datatype 'a fetch_result = FetchFailed string | HttpResponse nat "'a json_body"

definition http_ok :: "nat \<Rightarrow> bool" where
  "http_ok st \<longleftrightarrow> 200 \<le> st \<and> st \<le> 299"

text \<open>
  What a handler sees when it tests \<open>response.ok\<close> (and throws otherwise) and then
  awaits \<open>response.json()\<close>: the parsed body, or nothing when any of the
  three steps failed.
\<close>

definition response_ok :: "'a fetch_result \<Rightarrow> bool" where
  "response_ok r \<longleftrightarrow> (case r of FetchFailed _ \<Rightarrow> False | HttpResponse st _ \<Rightarrow> http_ok st)"

definition fetch_json :: "'a fetch_result \<Rightarrow> 'a option" where
  "fetch_json r =
     (case r of
        HttpResponse st (JsonValue v) \<Rightarrow> (if http_ok st then Some v else None)
      | _ \<Rightarrow> None)"

text \<open>
  The message a handler's \<open>catch\<close> sees when the response is checked with
  \<open>if (!response.ok) throw new Error(msg)\<close> and then read with
  \<open>response.json()\<close>: the network error's message, \<open>msg\<close>, or the parse
  error's message (empty when nothing was thrown).
\<close>

definition thrown_message :: "string \<Rightarrow> 'a fetch_result \<Rightarrow> string" where
  "thrown_message msg r =
     (case r of
        FetchFailed m \<Rightarrow> m
      | HttpResponse st b \<Rightarrow>
          (if \<not> http_ok st then msg else case b of JsonError m \<Rightarrow> m | JsonValue _ \<Rightarrow> []))"

section \<open>Tasks as the collaborator sends them\<close>

text \<open>
  An optional string field of a JSON object: the key may be absent (read as
  \<open>undefined\<close>), hold \<open>null\<close>, or hold a string. Reading it in JavaScript,
  both \<open>undefined\<close> and \<open>null\<close> are falsy (\<open>js_of\<close>); \<open>JSON.stringify\<close>
  tells them apart, dropping the key for \<open>undefined\<close> and writing \<open>null\<close>.
\<close>

datatype json_str = Absent | Null | Str string

fun js_of :: "json_str \<Rightarrow> js_str" where
  "js_of Absent = None"
| "js_of Null = None"
| "js_of (Str s) = Some s"

text \<open>
  A task is the JSON object of the REST collaborator. The code reads \<open>_id\<close>
  (here \<open>task_id\<close>), \<open>title\<close>, \<open>description\<close>, \<open>status\<close>, \<open>priority\<close> and
  \<open>due_date\<close>. The description keeps the three cases of a JSON field, since
  the edit page sends it back as it was read; the due date is only read
  through \<open>||\<close>, where absent and \<open>null\<close> behave alike. The collaborator's
  id, title, status and priority are taken to be strings. Status and priority
  stay strings, as in the code, which compares them with string literals and
  has a default branch for any other value.
\<close>

record task =
  task_id :: string
  title :: string
  description :: json_str
  status :: string
  priority :: string
  due_date :: js_str

section \<open>Status labels\<close>

text \<open>
  Both pages print a status with \<open>status.replace('_', ' ')\<close>: a string
  pattern replaces its first occurrence only.
\<close>

fun replace_first :: "char \<Rightarrow> string \<Rightarrow> string \<Rightarrow> string" where
  "replace_first c r [] = []"
| "replace_first c r (x # xs) = (if x = c then r @ xs else x # replace_first c r xs)"

definition status_label :: "string \<Rightarrow> string" where
  "status_label st = replace_first CHR ''_'' '' '' st"

section \<open>Lists with an element removed\<close>

text \<open>
  Requests in flight are kept in the order they were issued; a response may
  resolve any of them, which removes it from the list.
\<close>

definition del_at :: "nat \<Rightarrow> 'a list \<Rightarrow> 'a list" where
  "del_at i xs = take i xs @ drop (Suc i) xs"

section \<open>Lemmas\<close>

declare http_ok_def [fetch_simps] response_ok_def [fetch_simps] fetch_json_def [fetch_simps]
  thrown_message_def [fetch_simps]

lemma js_truthy_simps [simp]:
  "\<not> js_truthy None" "js_truthy (Some s) \<longleftrightarrow> s \<noteq> []"
  by (simp_all add: js_truthy_def)

lemma js_or_simps [simp]:
  "js_or None d = d" "js_or (Some s) d = (if s = [] then d else s)"
  by (simp_all add: js_or_def)

lemma js_or_truthy: "js_or x d = (if js_truthy x then the x else d)"
  by (cases x) simp_all

lemma http_ok_200 [simp]: "http_ok 200"
  and http_ok_404 [simp]: "\<not> http_ok 404"
  and http_ok_500 [simp]: "\<not> http_ok 500"
  by (simp_all add: http_ok_def)

lemma set_del_at_subset: "set (del_at i xs) \<subseteq> set xs"
  by (auto simp: del_at_def dest: in_set_takeD in_set_dropD)

lemma in_set_del_at:
  "i < length xs \<Longrightarrow> j < length xs \<Longrightarrow> j \<noteq> i \<Longrightarrow> xs ! j \<in> set (del_at i xs)"
proof -
  assume i: "i < length xs" and j: "j < length xs" and ji: "j \<noteq> i"
  show ?thesis
  proof (cases "j < i")
    case True
    with i have "take i xs ! j = xs ! j" "j < length (take i xs)" by simp_all
    then show ?thesis by (metis del_at_def in_set_conv_nth Un_iff set_append)
  next
    case False
    with ji have "Suc i \<le> j" by simp
    with j have "drop (Suc i) xs ! (j - Suc i) = xs ! j" "j - Suc i < length (drop (Suc i) xs)"
      by simp_all
    then show ?thesis by (metis del_at_def in_set_conv_nth Un_iff set_append)
  qed
qed

lemma length_del_at [simp]: "i < length xs \<Longrightarrow> length (del_at i xs) = length xs - 1"
  by (simp add: del_at_def)

lemma nth_del_at_less [simp]: "i < j \<Longrightarrow> j < length xs \<Longrightarrow> del_at j xs ! i = xs ! i"
  by (simp add: del_at_def nth_append)

lemma del_at_0 [simp]: "del_at 0 (x # xs) = xs"
  and del_at_Suc [simp]: "del_at (Suc i) (x # xs) = x # del_at i xs"
  by (simp_all add: del_at_def)

lemma list_ex_del_at:
  assumes "list_ex P xs" "i < length xs" "\<not> P (xs ! i)"
  shows "list_ex P (del_at i xs)"
proof -
  from assms(1) obtain j where j: "j < length xs" "P (xs ! j)"
    by (auto simp: list_ex_iff in_set_conv_nth)
  with assms(3) have "j \<noteq> i" by auto
  with j assms(2) have "xs ! j \<in> set (del_at i xs)" by (simp add: in_set_del_at)
  with j show ?thesis by (auto simp: list_ex_iff)
qed

end
