(* ===== verification/Url_Params.thy ===== *)
theory Url_Params
  imports Prelude
begin

text \<open>
  The query strings the pages send. The code builds them with the browser's
  \<open>URLSearchParams\<close> (\<open>append\<close>, then \<open>toString\<close> in the template literal of the
  request URL) and with JavaScript's number-to-string conversion. This theory
  models both on byte strings: the decimal rendering of a non-negative
  integer, the application/x-www-form-urlencoded serializer, and, as the
  abstract specification of what the collaborator reads, the matching
  urlencoded parser. The round trip of the two is proved for every list of
  parameters.
\<close>

section \<open>Numbers as decimal strings\<close>

definition digit_char :: "nat \<Rightarrow> char" where
  "digit_char d = char_of (48 + d)"

fun decimal :: "nat \<Rightarrow> string" where
  "decimal n = (if n < 10 then [digit_char n] else decimal (n div 10) @ [digit_char (n mod 10)])"

definition digit_val :: "char \<Rightarrow> nat" where
  "digit_val c = of_char c - 48"

definition parse_decimal :: "string \<Rightarrow> nat" where
  "parse_decimal s = foldl (\<lambda>acc c. 10 * acc + digit_val c) 0 s"

section \<open>The urlencoded serializer\<close>

text \<open>
  The serializer of the URL standard maps a space to \<open>+\<close>, keeps the bytes
  \<open>*-._\<close>, digits and ASCII letters, and writes every other byte as \<open>%\<close> and
  two upper-case hexadecimal digits. Names and values are joined by \<open>=\<close>,
  pairs by \<open>&\<close>.
\<close>

definition url_safe :: "char \<Rightarrow> bool" where
  "url_safe c \<longleftrightarrow> (let n = (of_char c :: nat) in
     n = 42 \<or> n = 45 \<or> n = 46 \<or> (48 \<le> n \<and> n \<le> 57) \<or> (65 \<le> n \<and> n \<le> 90) \<or> n = 95
     \<or> (97 \<le> n \<and> n \<le> 122))"

definition hex_digit :: "nat \<Rightarrow> char" where
  "hex_digit k = (if k < 10 then char_of (48 + k) else char_of (55 + k))"

definition encode_byte :: "char \<Rightarrow> string" where
  "encode_byte c =
     (if c = CHR '' '' then ''+''
      else if url_safe c then [c]
      else [CHR ''%'', hex_digit (of_char c div 16), hex_digit (of_char c mod 16)])"

definition form_encode :: "string \<Rightarrow> string" where
  "form_encode s = concat (map encode_byte s)"

type_synonym search_params = "(string \<times> string) list"

definition params_append :: "search_params \<Rightarrow> string \<Rightarrow> string \<Rightarrow> search_params" where
  "params_append ps k v = ps @ [(k, v)]"

definition encode_pair :: "string \<times> string \<Rightarrow> string" where
  "encode_pair p = form_encode (fst p) @ ''='' @ form_encode (snd p)"

fun params_to_string :: "search_params \<Rightarrow> string" where
  "params_to_string [] = []"
| "params_to_string [p] = encode_pair p"
| "params_to_string (p # q # ps) = encode_pair p @ ''&'' @ params_to_string (q # ps)"

section \<open>The urlencoded parser (the collaborator's side)\<close>

definition is_hex :: "char \<Rightarrow> bool" where
  "is_hex c \<longleftrightarrow> (let n = (of_char c :: nat) in
     (48 \<le> n \<and> n \<le> 57) \<or> (65 \<le> n \<and> n \<le> 70) \<or> (97 \<le> n \<and> n \<le> 102))"

definition hex_val :: "char \<Rightarrow> nat" where
  "hex_val c = (let n = (of_char c :: nat) in
     if n \<le> 57 then n - 48 else if n \<le> 70 then n - 55 else n - 87)"

fun pct_decode :: "string \<Rightarrow> string" where
  "pct_decode [] = []"
| "pct_decode (c # cs) =
     (if c = CHR ''+'' then CHR '' '' # pct_decode cs
      else if c = CHR ''%'' \<and> 2 \<le> length cs \<and> is_hex (cs ! 0) \<and> is_hex (cs ! 1)
      then char_of (16 * hex_val (cs ! 0) + hex_val (cs ! 1)) # pct_decode (drop 2 cs)
      else c # pct_decode cs)"

fun split_on :: "char \<Rightarrow> string \<Rightarrow> string list" where
  "split_on d [] = [[]]"
| "split_on d (c # cs) =
     (let r = split_on d cs in if c = d then [] # r else (c # hd r) # tl r)"

definition parse_pair :: "string \<Rightarrow> string \<times> string" where
  "parse_pair s =
     (pct_decode (takeWhile (\<lambda>c. c \<noteq> CHR ''='') s),
      pct_decode (drop 1 (dropWhile (\<lambda>c. c \<noteq> CHR ''='') s)))"

definition parse_query :: "string \<Rightarrow> search_params" where
  "parse_query q = map parse_pair (filter (\<lambda>s. s \<noteq> []) (split_on CHR ''&'' q))"

section \<open>Lemmas: decimal numbers\<close>

declare decimal.simps [simp del]

lemma of_char_digit_char: "d < 10 \<Longrightarrow> of_char (digit_char d) = 48 + d"
  by (simp add: digit_char_def)

lemma digit_val_digit_char [simp]: "d < 10 \<Longrightarrow> digit_val (digit_char d) = d"
  by (simp add: digit_val_def of_char_digit_char)

lemma parse_decimal_snoc: "parse_decimal (s @ [c]) = 10 * parse_decimal s + digit_val c"
  by (simp add: parse_decimal_def)

theorem parse_decimal_decimal: "parse_decimal (decimal n) = n"
proof (induction n rule: decimal.induct)
  case (1 n)
  show ?case
  proof (cases "n < 10")
    case True
    then show ?thesis by (simp add: decimal.simps parse_decimal_def)
  next
    case False
    with "1.IH" have "parse_decimal (decimal (n div 10)) = n div 10" by simp
    with False show ?thesis
      by (simp add: decimal.simps [of n] parse_decimal_snoc)
  qed
qed

lemma decimal_digits: "c \<in> set (decimal n) \<Longrightarrow> 48 \<le> (of_char c :: nat) \<and> (of_char c :: nat) \<le> 57"
proof (induction n rule: decimal.induct)
  case (1 n)
  then show ?case
    by (cases "n < 10") (auto simp: decimal.simps [of n] of_char_digit_char)
qed

section \<open>Lemmas: the urlencoded round trip\<close>

lemma of_char_hex_digit:
  "k < 16 \<Longrightarrow> of_char (hex_digit k) = (if k < 10 then 48 + k else 55 + k)"
  by (simp add: hex_digit_def)

lemma hex_digit_is_hex: "k < 16 \<Longrightarrow> is_hex (hex_digit k)"
  by (simp add: is_hex_def of_char_hex_digit)

lemma hex_val_hex_digit: "k < 16 \<Longrightarrow> hex_val (hex_digit k) = k"
  by (simp add: hex_val_def of_char_hex_digit)

lemma hex_digit_url_safe: "k < 16 \<Longrightarrow> url_safe (hex_digit k)"
  by (simp add: url_safe_def of_char_hex_digit)

lemma of_char_div16: "(of_char c :: nat) div 16 < 16"
  using nat_of_char_less_256 [of c] by linarith

lemma of_char_mod16: "(of_char c :: nat) mod 16 < 16"
  by simp

lemma encode_byte_chars:
  "x \<in> set (encode_byte c) \<Longrightarrow> x = CHR ''+'' \<or> x = CHR ''%'' \<or> url_safe x"
  using hex_digit_url_safe [OF of_char_div16 [of c]] hex_digit_url_safe [OF of_char_mod16 [of c]]
  by (auto simp: encode_byte_def split: if_splits)

lemma form_encode_chars:
  "x \<in> set (form_encode s) \<Longrightarrow> x = CHR ''+'' \<or> x = CHR ''%'' \<or> url_safe x"
  by (auto simp: form_encode_def dest: encode_byte_chars)

lemma not_url_safe_specials [simp]:
  "\<not> url_safe CHR ''&''" "\<not> url_safe CHR ''=''" "\<not> url_safe CHR ''+''" "\<not> url_safe CHR ''%''"
  by (simp_all add: url_safe_def)

lemma form_encode_no_amp: "CHR ''&'' \<notin> set (form_encode s)"
  using form_encode_chars by fastforce

lemma form_encode_no_eq: "CHR ''='' \<notin> set (form_encode s)"
  using form_encode_chars by fastforce

lemma pct_decode_encode_byte: "pct_decode (encode_byte c @ r) = c # pct_decode r"
proof -
  consider (space) "c = CHR '' ''" | (safe) "c \<noteq> CHR '' ''" "url_safe c"
    | (pct) "c \<noteq> CHR '' ''" "\<not> url_safe c" by blast
  then show ?thesis
  proof cases
    case space
    then show ?thesis by (simp add: encode_byte_def)
  next
    case safe
    then have "c \<noteq> CHR ''+''" "c \<noteq> CHR ''%''" by auto
    with safe show ?thesis by (simp add: encode_byte_def)
  next
    case pct
    let ?h = "(of_char c :: nat) div 16" and ?l = "(of_char c :: nat) mod 16"
    have hx: "is_hex (hex_digit ?h)" "is_hex (hex_digit ?l)"
      by (simp_all add: hex_digit_is_hex of_char_div16)
    have "16 * hex_val (hex_digit ?h) + hex_val (hex_digit ?l) = of_char c"
      by (simp add: hex_val_hex_digit of_char_div16)
    then have "char_of (16 * hex_val (hex_digit ?h) + hex_val (hex_digit ?l)) = c"
      by simp
    with pct hx show ?thesis by (simp add: encode_byte_def)
  qed
qed

lemma pct_decode_form_encode_append: "pct_decode (form_encode s @ r) = s @ pct_decode r"
  by (induction s) (simp_all add: form_encode_def pct_decode_encode_byte [simplified append_assoc])

theorem pct_decode_form_encode: "pct_decode (form_encode s) = s"
  using pct_decode_form_encode_append [of s "[]"] by simp

lemma split_on_nonempty: "split_on d xs \<noteq> []"
  by (induction xs) (auto simp: Let_def)

lemma split_on_no_sep: "d \<notin> set xs \<Longrightarrow> split_on d xs = [xs]"
  by (induction xs) (auto simp: Let_def)

lemma split_on_sep: "d \<notin> set xs \<Longrightarrow> split_on d (xs @ d # ys) = xs # split_on d ys"
  by (induction xs) (auto simp: Let_def)

lemma encode_pair_no_amp: "CHR ''&'' \<notin> set (encode_pair p)"
  by (simp add: encode_pair_def form_encode_no_amp)

lemma encode_pair_nonempty: "encode_pair p \<noteq> []"
  by (simp add: encode_pair_def)

lemma parse_pair_encode_pair: "parse_pair (encode_pair p) = p"
proof -
  have "\<forall>x \<in> set (form_encode (fst p)). x \<noteq> CHR ''=''"
    using form_encode_no_eq by blast
  then show ?thesis
    by (simp add: parse_pair_def encode_pair_def takeWhile_append2 dropWhile_append2
        pct_decode_form_encode)
qed

theorem parse_query_params_to_string: "parse_query (params_to_string ps) = ps"
proof (induction ps rule: params_to_string.induct)
  case 1
  then show ?case by (simp add: parse_query_def)
next
  case (2 p)
  then show ?case
    by (simp add: parse_query_def split_on_no_sep encode_pair_no_amp encode_pair_nonempty
        parse_pair_encode_pair)
next
  case (3 p q ps)
  then show ?case
    by (simp add: parse_query_def split_on_sep encode_pair_no_amp encode_pair_nonempty
        parse_pair_encode_pair)
qed

end
