(* ===== verification/Task_List.thy ===== *)
theory Task_List
  imports Url_Params
begin

text \<open>
  The task list page, src/frontend/src/app/tasks/page.js (\<open>TasksPage\<close>).
  Its React state is the record \<open>tasks_page\<close>; the requests it has issued and
  that have not resolved yet are the field \<open>pending\<close>, which stands for the
  browser's outstanding \<open>fetch\<close> promises. Every user action and every
  network completion is an event; \<open>tasks_step\<close> is the page's reaction to
  one event, with the effect that refetches run as part of the state change
  that triggers them. Network completions may come in any order: the event
  names which outstanding request resolves.
\<close>

section \<open>Query state and the list request\<close>

definition TASKS_PER_PAGE :: nat where
  "TASKS_PER_PAGE = 10"

record filters =
  filter_status :: string
  filter_priority :: string

definition tasks_endpoint :: string where
  "tasks_endpoint = ''http://localhost:8000/api/tasks''"

text \<open>\<open>fetchTasks\<close>, lines 53--58: the parameters in the order they are appended.\<close>

definition list_params :: "filters \<Rightarrow> string \<Rightarrow> nat \<Rightarrow> search_params" where
  "list_params f searchTerm page =
     (let ps0 = [];
          ps1 = (if filter_status f \<noteq> ''all'' then params_append ps0 ''status'' (filter_status f) else ps0);
          ps2 = (if filter_priority f \<noteq> ''all'' then params_append ps1 ''priority'' (filter_priority f) else ps1);
          ps3 = (if searchTerm \<noteq> [] then params_append ps2 ''search'' searchTerm else ps2);
          ps4 = params_append ps3 ''skip'' (decimal (page * TASKS_PER_PAGE))
      in params_append ps4 ''limit'' (decimal TASKS_PER_PAGE))"

definition list_url :: "filters \<Rightarrow> string \<Rightarrow> nat \<Rightarrow> string" where
  "list_url f searchTerm page = tasks_endpoint @ ''?'' @ params_to_string (list_params f searchTerm page)"

definition delete_url :: "string \<Rightarrow> string" where
  "delete_url tid = tasks_endpoint @ ''/'' @ tid"

section \<open>Page state\<close>

text \<open>
  A request in flight: a list request with its URL, or a delete request with
  its URL (which names the task's id) and the list URL of the \<open>fetchTasks\<close> closure that
  \<open>handleDelete\<close> captured when it was called.
\<close>

datatype request = ListRequest string | DeleteRequest string string

record tasks_page =
  tasks :: "task list"
  loading :: bool
  error :: "string option"
  filters :: filters
  searchTerm :: string
  page :: nat
  isDeleteDialogOpen :: bool
  taskToDelete :: "task option"
  pending :: "request list"

definition tasks_initial :: tasks_page where
  "tasks_initial =
     \<lparr>tasks = [], loading = True, error = None,
      filters = \<lparr>filter_status = ''all'', filter_priority = ''all''\<rparr>,
      searchTerm = [], page = 0, isDeleteDialogOpen = False, taskToDelete = None, pending = []\<rparr>"

definition current_url :: "tasks_page \<Rightarrow> string" where
  "current_url s = list_url (filters s) (searchTerm s) (page s)"

section \<open>Operations\<close>

text \<open>
  The synchronous part of \<open>fetchTasks\<close> (lines 51--61): set loading, clear the
  error, issue the request for the closure's query. The rest runs when the
  request resolves (\<open>list_resolved\<close>).
\<close>

definition issue_fetch :: "string \<Rightarrow> tasks_page \<Rightarrow> tasks_page" where
  "issue_fetch url s = s\<lparr>loading := True, error := None, pending := pending s @ [ListRequest url]\<rparr>"

definition fetchTasks :: "tasks_page \<Rightarrow> tasks_page" where
  "fetchTasks s = issue_fetch (current_url s) s"

text \<open>The mount effect (lines 72--74) runs \<open>fetchTasks\<close> once.\<close>

definition tasks_mount :: tasks_page where
  "tasks_mount = fetchTasks tasks_initial"

definition list_error_msg :: string where
  "list_error_msg = ''Could not fetch tasks. Please try again later.''"

text \<open>Lines 62--69: \<open>data || []\<close> with \<open>None\<close> for a JSON \<open>null\<close>.\<close>

fun list_resolved :: "task list option fetch_result \<Rightarrow> tasks_page \<Rightarrow> tasks_page" where
  "list_resolved (FetchFailed m) s = s\<lparr>error := Some list_error_msg, loading := False\<rparr>"
| "list_resolved (HttpResponse st body) s =
     (if \<not> http_ok st then s\<lparr>error := Some list_error_msg, loading := False\<rparr>
      else case body of
        JsonError m \<Rightarrow> s\<lparr>error := Some list_error_msg, loading := False\<rparr>
      | JsonValue d \<Rightarrow> s\<lparr>tasks := (case d of None \<Rightarrow> [] | Some ts \<Rightarrow> ts), loading := False\<rparr>)"

text \<open>
  The search box and the two selects (lines 134--156). A new search term
  changes the \<open>fetchTasks\<close> dependencies and the effect refetches; React keeps
  the state when the term is unchanged. \<open>setFilters\<close> always stores a fresh
  object, so a select always refetches.
\<close>

definition setSearchTerm :: "string \<Rightarrow> tasks_page \<Rightarrow> tasks_page" where
  "setSearchTerm v s = (if v = searchTerm s then s else fetchTasks (s\<lparr>searchTerm := v\<rparr>))"

definition setStatusFilter :: "string \<Rightarrow> tasks_page \<Rightarrow> tasks_page" where
  "setStatusFilter v s = fetchTasks (s\<lparr>filters := (filters s)\<lparr>filter_status := v\<rparr>\<rparr>)"

definition setPriorityFilter :: "string \<Rightarrow> tasks_page \<Rightarrow> tasks_page" where
  "setPriorityFilter v s = fetchTasks (s\<lparr>filters := (filters s)\<lparr>filter_priority := v\<rparr>\<rparr>)"

text \<open>
  The pagination buttons (lines 209--215): disabled buttons ignore clicks.
  \<open>Math.max(0, p - 1)\<close> is subtraction on \<open>nat\<close>.
\<close>

definition prev_disabled :: "tasks_page \<Rightarrow> bool" where
  "prev_disabled s \<longleftrightarrow> page s = 0"

definition next_disabled :: "tasks_page \<Rightarrow> bool" where
  "next_disabled s \<longleftrightarrow> length (tasks s) < TASKS_PER_PAGE"

definition prevPage :: "tasks_page \<Rightarrow> tasks_page" where
  "prevPage s = (if prev_disabled s then s else fetchTasks (s\<lparr>page := page s - 1\<rparr>))"

definition nextPage :: "tasks_page \<Rightarrow> tasks_page" where
  "nextPage s = (if next_disabled s then s else fetchTasks (s\<lparr>page := page s + 1\<rparr>))"

text \<open>
  \<open>openDeleteDialog\<close> (lines 92--95), reachable from a row's Delete button,
  which is rendered only when the page is not loading (lines 174--196).
\<close>

definition openDeleteDialog :: "task \<Rightarrow> tasks_page \<Rightarrow> tasks_page" where
  "openDeleteDialog t s =
     (if \<not> loading s \<and> t \<in> set (tasks s)
      then s\<lparr>taskToDelete := Some t, isDeleteDialogOpen := True\<rparr> else s)"

text \<open>
  \<open>handleDelete\<close> (lines 76--90) up to its \<open>await\<close>: the early return, then the
  DELETE request, which captures the id and the current \<open>fetchTasks\<close>.
  The dialog's Continue button runs it and then closes the dialog through
  \<open>onOpenChange\<close> (lines 219, 229); Cancel only closes it (line 228).
\<close>

definition handleDelete :: "tasks_page \<Rightarrow> tasks_page" where
  "handleDelete s =
     (case taskToDelete s of
        None \<Rightarrow> s
      | Some t \<Rightarrow> s\<lparr>pending := pending s @ [DeleteRequest (delete_url (task_id t)) (current_url s)]\<rparr>)"

definition confirmDelete :: "tasks_page \<Rightarrow> tasks_page" where
  "confirmDelete s = (if isDeleteDialogOpen s then (handleDelete s)\<lparr>isDeleteDialogOpen := False\<rparr> else s)"

definition cancelDelete :: "tasks_page \<Rightarrow> tasks_page" where
  "cancelDelete s = (if isDeleteDialogOpen s then s\<lparr>isDeleteDialogOpen := False\<rparr> else s)"

definition delete_error_msg :: string where
  "delete_error_msg = ''Failed to delete task''"

text \<open>The rest of \<open>handleDelete\<close> (lines 79--89), once the DELETE resolves.\<close>

definition delete_finally :: "tasks_page \<Rightarrow> tasks_page" where
  "delete_finally s = s\<lparr>isDeleteDialogOpen := False, taskToDelete := None\<rparr>"

fun delete_resolved :: "string \<Rightarrow> unit fetch_result \<Rightarrow> tasks_page \<Rightarrow> tasks_page" where
  "delete_resolved url (FetchFailed m) s = delete_finally (s\<lparr>error := Some m\<rparr>)"
| "delete_resolved url (HttpResponse st body) s =
     delete_finally (if http_ok st then issue_fetch url s else s\<lparr>error := Some delete_error_msg\<rparr>)"

section \<open>Rendering helpers\<close>

text \<open>\<open>formatDate\<close> (lines 26--31); the locale formatting of \<open>Date\<close> is the parameter \<open>fmt\<close>.\<close>

definition formatDate :: "(string \<Rightarrow> string) \<Rightarrow> js_str \<Rightarrow> string" where
  "formatDate fmt d = (case d of Some ds \<Rightarrow> (if ds = [] then ''N/A'' else fmt ds) | None \<Rightarrow> ''N/A'')"

text \<open>The badge variants (lines 97--111).\<close>

definition getStatusBadgeVariant :: "string \<Rightarrow> string" where
  "getStatusBadgeVariant st =
     (if st = ''completed'' then ''default'' else if st = ''in_progress'' then ''secondary'' else ''outline'')"

definition getPriorityBadgeVariant :: "string \<Rightarrow> string" where
  "getPriorityBadgeVariant p =
     (if p = ''high'' then ''destructive'' else if p = ''medium'' then ''secondary'' else ''outline'')"

text \<open>The table body (lines 174--201): five skeleton rows, the task rows, or the empty message.\<close>

record task_row =
  row_title :: string
  row_status :: string
  row_status_variant :: string
  row_priority :: string
  row_priority_variant :: string
  row_due :: string

datatype table_body = SkeletonRows nat | TaskRows "task_row list" | NoTasksFound

definition task_row :: "(string \<Rightarrow> string) \<Rightarrow> task \<Rightarrow> task_row" where
  "task_row fmt t =
     \<lparr>row_title = title t, row_status = status_label (status t),
      row_status_variant = getStatusBadgeVariant (status t), row_priority = priority t,
      row_priority_variant = getPriorityBadgeVariant (priority t), row_due = formatDate fmt (due_date t)\<rparr>"

definition table_body :: "(string \<Rightarrow> string) \<Rightarrow> tasks_page \<Rightarrow> table_body" where
  "table_body fmt s =
     (if loading s then SkeletonRows 5
      else if tasks s \<noteq> [] then TaskRows (map (task_row fmt) (tasks s)) else NoTasksFound)"

section \<open>Events and the step function\<close>

datatype tasks_event =
    SetSearch string
  | SetStatus string
  | SetPriority string
  | PrevPage
  | NextPage
  | OpenDelete task
  | ConfirmDelete
  | CancelDelete
  | ListResolved nat "task list option fetch_result"
  | DeleteResolved nat "unit fetch_result"

definition resolve_list :: "nat \<Rightarrow> task list option fetch_result \<Rightarrow> tasks_page \<Rightarrow> tasks_page" where
  "resolve_list i r s =
     (if i < length (pending s) then
        (case pending s ! i of
           ListRequest u \<Rightarrow> list_resolved r (s\<lparr>pending := del_at i (pending s)\<rparr>)
         | DeleteRequest _ _ \<Rightarrow> s)
      else s)"

definition resolve_delete :: "nat \<Rightarrow> unit fetch_result \<Rightarrow> tasks_page \<Rightarrow> tasks_page" where
  "resolve_delete i r s =
     (if i < length (pending s) then
        (case pending s ! i of
           ListRequest _ \<Rightarrow> s
         | DeleteRequest tid url \<Rightarrow> delete_resolved url r (s\<lparr>pending := del_at i (pending s)\<rparr>))
      else s)"

fun tasks_step :: "tasks_page \<Rightarrow> tasks_event \<Rightarrow> tasks_page" where
  "tasks_step s (SetSearch v) = setSearchTerm v s"
| "tasks_step s (SetStatus v) = setStatusFilter v s"
| "tasks_step s (SetPriority v) = setPriorityFilter v s"
| "tasks_step s PrevPage = prevPage s"
| "tasks_step s NextPage = nextPage s"
| "tasks_step s (OpenDelete t) = openDeleteDialog t s"
| "tasks_step s ConfirmDelete = confirmDelete s"
| "tasks_step s CancelDelete = cancelDelete s"
| "tasks_step s (ListResolved i r) = resolve_list i r s"
| "tasks_step s (DeleteResolved i r) = resolve_delete i r s"

definition tasks_run :: "tasks_page \<Rightarrow> tasks_event list \<Rightarrow> tasks_page" where
  "tasks_run s es = foldl tasks_step s es"

inductive tasks_reach :: "tasks_page \<Rightarrow> bool" where
  mount: "tasks_reach tasks_mount"
| step: "tasks_reach s \<Longrightarrow> tasks_reach (tasks_step s e)"

section \<open>The spec's query state\<close>

text \<open>
  The abstract specification of the list view controller (spec, 4.1): a
  query state of status filter, priority filter, search term and offset, and
  the parameters its \<open>load\<close> sends: a filter equal to \<open>all\<close> and an empty
  search are omitted, the offset and the page size 10 always present.
  \<open>abs_query\<close> reads the abstract state off the page's state.
\<close>

record query_state =
  qs_status :: string
  qs_priority :: string
  qs_search :: string
  qs_offset :: nat

definition spec_request_params :: "query_state \<Rightarrow> string \<Rightarrow> string option" where
  "spec_request_params q k =
     (if k = ''status'' then (if qs_status q = ''all'' then None else Some (qs_status q))
      else if k = ''priority'' then (if qs_priority q = ''all'' then None else Some (qs_priority q))
      else if k = ''search'' then (if qs_search q = [] then None else Some (qs_search q))
      else if k = ''skip'' then Some (decimal (qs_offset q))
      else if k = ''limit'' then Some (decimal 10)
      else None)"

definition abs_query :: "tasks_page \<Rightarrow> query_state" where
  "abs_query s =
     \<lparr>qs_status = filter_status (filters s), qs_priority = filter_priority (filters s),
      qs_search = searchTerm s, qs_offset = page s * TASKS_PER_PAGE\<rparr>"

fun is_query_event :: "tasks_event \<Rightarrow> bool" where
  "is_query_event (SetSearch _) = True"
| "is_query_event (SetStatus _) = True"
| "is_query_event (SetPriority _) = True"
| "is_query_event PrevPage = True"
| "is_query_event NextPage = True"
| "is_query_event _ = False"

fun is_list_request :: "request \<Rightarrow> bool" where
  "is_list_request (ListRequest _) = True"
| "is_list_request (DeleteRequest _ _) = False"

definition list_in_flight :: "tasks_page \<Rightarrow> bool" where
  "list_in_flight s \<longleftrightarrow> list_ex is_list_request (pending s)"

text \<open>
  The page invariant: the skeleton rows are shown only while a list request
  is outstanding, and the confirmation dialog is open only with a task to
  delete.
\<close>

definition tasks_inv :: "tasks_page \<Rightarrow> bool" where
  "tasks_inv s \<longleftrightarrow>
     (loading s \<longrightarrow> list_in_flight s) \<and> (isDeleteDialogOpen s \<longrightarrow> taskToDelete s \<noteq> None)"

text \<open>
  Letting the requests in flight settle, oldest first, with whatever the
  collaborator answers: \<open>al n u\<close> and \<open>ad n d\<close> are the answers to the list
  request for \<open>u\<close> and to the DELETE of \<open>d\<close> settled at countdown \<open>n\<close>. Each
  step settles the oldest request; with nothing in flight it does nothing.
\<close>

fun settle_event ::
  "(nat \<Rightarrow> string \<Rightarrow> task list option fetch_result) \<Rightarrow> (nat \<Rightarrow> string \<Rightarrow> unit fetch_result) \<Rightarrow>
   nat \<Rightarrow> request \<Rightarrow> tasks_event" where
  "settle_event al ad n (ListRequest u) = ListResolved 0 (al n u)"
| "settle_event al ad n (DeleteRequest d u) = DeleteResolved 0 (ad n d)"

fun settle_oldest ::
  "(nat \<Rightarrow> string \<Rightarrow> task list option fetch_result) \<Rightarrow> (nat \<Rightarrow> string \<Rightarrow> unit fetch_result) \<Rightarrow>
   nat \<Rightarrow> tasks_page \<Rightarrow> tasks_page" where
  "settle_oldest al ad 0 s = s"
| "settle_oldest al ad (Suc n) s =
     settle_oldest al ad n (case pending s of [] \<Rightarrow> s | r # _ \<Rightarrow> tasks_step s (settle_event al ad n r))"

text \<open>
  A measure of the work in flight: a DELETE may still issue one list
  request, a list request issues nothing more.
\<close>

fun req_weight :: "request \<Rightarrow> nat" where
  "req_weight (ListRequest _) = 1"
| "req_weight (DeleteRequest _ _) = 2"

definition pending_weight :: "tasks_page \<Rightarrow> nat" where
  "pending_weight s = sum_list (map req_weight (pending s))"

text \<open>Concrete tasks and page states from which the witnesses and scenarios start.\<close>

definition sample_task :: task where
  "sample_task = \<lparr>task_id = ''t1'', title = ''Write report'', description = Absent,
     status = ''pending'', priority = ''high'', due_date = None\<rparr>"

definition done_task :: task where
  "done_task = \<lparr>task_id = ''t2'', title = ''File taxes'', description = Str ''before April'',
     status = ''completed'', priority = ''low'', due_date = Some ''2025-04-01T10:00''\<rparr>"

definition sample_open :: tasks_page where
  "sample_open = tasks_run tasks_mount
     [ListResolved 0 (HttpResponse 200 (JsonValue (Some [sample_task]))), OpenDelete sample_task]"

definition sample_deleting :: tasks_page where
  "sample_deleting = tasks_step sample_open ConfirmDelete"

section \<open>Lemmas\<close>

lemmas query_ops_defs =
  setSearchTerm_def setStatusFilter_def setPriorityFilter_def prevPage_def nextPage_def
  fetchTasks_def issue_fetch_def

lemmas dialog_ops_defs = openDeleteDialog_def confirmDelete_def cancelDelete_def handleDelete_def

lemma tasks_inv_issue_fetch [simp]:
  "tasks_inv (issue_fetch u s) \<longleftrightarrow> (isDeleteDialogOpen s \<longrightarrow> taskToDelete s \<noteq> None)"
  by (simp add: tasks_inv_def issue_fetch_def list_in_flight_def)

lemma tasks_inv_dialog: "tasks_inv s \<Longrightarrow> isDeleteDialogOpen s \<longrightarrow> taskToDelete s \<noteq> None"
  by (simp add: tasks_inv_def)

lemma tasks_inv_query_ops:
  assumes "tasks_inv s"
  shows "tasks_inv (setSearchTerm v s)" "tasks_inv (setStatusFilter v s)"
    "tasks_inv (setPriorityFilter v s)" "tasks_inv (prevPage s)" "tasks_inv (nextPage s)"
  using assms by (auto simp: query_ops_defs tasks_inv_def list_in_flight_def)

lemma tasks_inv_dialog_ops:
  assumes "tasks_inv s"
  shows "tasks_inv (openDeleteDialog t s)" "tasks_inv (confirmDelete s)" "tasks_inv (cancelDelete s)"
  using assms by (auto simp: dialog_ops_defs tasks_inv_def list_in_flight_def split: option.splits)

lemma tasks_inv_resolve_list: "tasks_inv s \<Longrightarrow> tasks_inv (resolve_list i r s)"
  by (cases r) (auto simp: resolve_list_def tasks_inv_def split: request.splits json_body.splits)

lemma tasks_inv_resolve_delete:
  assumes "tasks_inv s"
  shows "tasks_inv (resolve_delete i r s)"
proof (cases "i < length (pending s)")
  case True
  show ?thesis
  proof (cases "pending s ! i")
    case (ListRequest u)
    with assms show ?thesis by (simp add: resolve_delete_def)
  next
    case (DeleteRequest tid url)
    with assms True have "loading s \<longrightarrow> list_in_flight (s\<lparr>pending := del_at i (pending s)\<rparr>)"
      by (auto simp: tasks_inv_def list_in_flight_def intro: list_ex_del_at)
    with assms True DeleteRequest show ?thesis
      by (cases r) (auto simp: resolve_delete_def tasks_inv_def delete_finally_def
          issue_fetch_def list_in_flight_def)
  qed
next
  case False
  with assms show ?thesis by (simp add: resolve_delete_def)
qed

lemma tasks_step_inv: "tasks_inv s \<Longrightarrow> tasks_inv (tasks_step s e)"
  by (cases e) (simp_all add: tasks_inv_query_ops tasks_inv_dialog_ops tasks_inv_resolve_list
      tasks_inv_resolve_delete)

lemma tasks_inv_mount: "tasks_inv tasks_mount"
  by (simp add: tasks_mount_def fetchTasks_def tasks_initial_def)

lemma tasks_reach_inv: "tasks_reach s \<Longrightarrow> tasks_inv s"
  by (induction rule: tasks_reach.induct) (simp_all add: tasks_inv_mount tasks_step_inv)

text \<open>The state a successful list response leaves.\<close>

lemma resolve_list_success:
  assumes "i < length (pending s)" and "pending s ! i = ListRequest u" and "fetch_json r = Some d"
  shows "tasks_step s (ListResolved i r) =
    s\<lparr>pending := del_at i (pending s), tasks := (case d of None \<Rightarrow> [] | Some ts \<Rightarrow> ts), loading := False\<rparr>"
  using assms by (cases r) (auto simp: resolve_list_def fetch_simps split: json_body.splits if_splits)

lemma pending_list_resolved [simp]: "pending (list_resolved r s) = pending s"
  by (cases r) (simp_all split: json_body.splits)

lemma settle_event_pending:
  assumes "pending s = r # rs"
  shows "pending (tasks_step s (settle_event al ad n r)) =
    rs @ (case r of ListRequest _ \<Rightarrow> [] | DeleteRequest d u \<Rightarrow> if response_ok (ad n d) then [ListRequest u] else [])"
proof (cases r)
  case (ListRequest u)
  with assms show ?thesis by (simp add: resolve_list_def)
next
  case (DeleteRequest d u)
  with assms show ?thesis
    by (cases "ad n d") (simp_all add: resolve_delete_def delete_finally_def issue_fetch_def fetch_simps)
qed

lemma settle_event_weight:
  assumes "pending s = r # rs"
  shows "pending_weight (tasks_step s (settle_event al ad n r)) < pending_weight s"
  using settle_event_pending [OF assms, of al ad n] assms
  by (cases r) (simp_all add: pending_weight_def)

lemma settle_oldest_idle: "pending s = [] \<Longrightarrow> settle_oldest al ad n s = s"
  by (induction n) simp_all

lemma settle_oldest_reach: "tasks_reach s \<Longrightarrow> tasks_reach (settle_oldest al ad n s)"
  by (induction n arbitrary: s) (simp_all add: tasks_reach.step split: list.splits)

lemma pending_weight_zero:
  assumes "pending_weight s = 0"
  shows "pending s = []"
proof (cases "pending s")
  case (Cons r rs)
  have "0 < req_weight r" by (cases r) simp_all
  with assms Cons show ?thesis by (simp add: pending_weight_def)
qed

lemma settle_oldest_empties:
  "pending_weight s \<le> n \<Longrightarrow> pending (settle_oldest al ad n s) = []"
proof (induction n arbitrary: s)
  case 0
  then show ?case by (simp add: pending_weight_zero)
next
  case (Suc n)
  show ?case
  proof (cases "pending s")
    case Nil
    then show ?thesis by (simp add: settle_oldest_idle)
  next
    case (Cons r rs)
    with Suc.prems settle_event_weight [OF Cons, of al ad n]
    have "pending_weight (tasks_step s (settle_event al ad n r)) \<le> n" by simp
    from Suc.IH [OF this] Cons show ?thesis by simp
  qed
qed

lemma pending_weight_le: "pending_weight s \<le> 2 * length (pending s)"
proof -
  have w: "req_weight r \<le> 2" for r by (cases r) simp_all
  have "sum_list (map req_weight xs) \<le> 2 * length xs" for xs
  proof (induction xs)
    case (Cons x xs)
    with w [of x] show ?case by simp
  qed simp
  then show ?thesis by (simp add: pending_weight_def)
qed

lemma tasks_reach_run: "tasks_reach s \<Longrightarrow> tasks_reach (tasks_run s es)"
  by (induction es arbitrary: s) (simp_all add: tasks_run_def tasks_reach.step)

section \<open>Properties of the list page\<close>

text \<open>
  C1. The page never shows its loading skeleton without a list request in
  flight: in every reachable state, \<open>loading\<close> implies that some list request
  is still pending, so the skeleton always ends once the requests resolve.
\<close>

theorem loading_has_request_in_flight:
  "tasks_reach s \<Longrightarrow> loading s \<Longrightarrow> list_in_flight s"
  using tasks_reach_inv by (simp add: tasks_inv_def)

theorem loading_has_request_in_flight_witness:
  "tasks_reach tasks_mount \<and> loading tasks_mount \<and> list_in_flight tasks_mount"
proof -
  have r: "tasks_reach tasks_mount" by (rule tasks_reach.mount)
  have l: "loading tasks_mount" by (simp add: tasks_mount_def fetchTasks_def issue_fetch_def)
  show ?thesis using loading_has_request_in_flight [OF r l] r l by simp
qed

text \<open>
  C2. The early return of \<open>handleDelete\<close> is dead code: in every reachable
  state with the confirmation dialog open there is a task to delete, and
  Continue issues exactly one DELETE request for it and closes the dialog.
\<close>

theorem confirm_delete_issues_request:
  assumes "tasks_reach s" and "isDeleteDialogOpen s"
  shows "\<exists>t. taskToDelete s = Some t \<and>
           pending (tasks_step s ConfirmDelete) = pending s @ [DeleteRequest (delete_url (task_id t)) (current_url s)] \<and>
           \<not> isDeleteDialogOpen (tasks_step s ConfirmDelete)"
proof -
  from assms have "taskToDelete s \<noteq> None"
    using tasks_reach_inv tasks_inv_dialog by blast
  with assms(2) show ?thesis
    by (auto simp: confirmDelete_def handleDelete_def)
qed

lemmas tasks_eval_defs = tasks_run_def tasks_mount_def tasks_initial_def query_ops_defs
  dialog_ops_defs resolve_list_def resolve_delete_def delete_finally_def current_url_def

theorem confirm_delete_issues_request_witness:
  "tasks_reach sample_open \<and> isDeleteDialogOpen sample_open \<and>
   pending (tasks_step sample_open ConfirmDelete) =
     [DeleteRequest ''http://localhost:8000/api/tasks/t1'' ''http://localhost:8000/api/tasks?skip=0&limit=10'']"
proof -
  have r: "tasks_reach sample_open"
    unfolding sample_open_def by (rule tasks_reach_run [OF tasks_reach.mount])
  have o: "isDeleteDialogOpen sample_open" by code_simp
  have u: "current_url sample_open = ''http://localhost:8000/api/tasks?skip=0&limit=10''"
    by code_simp
  have p: "pending sample_open = []" by code_simp
  obtain t where t: "taskToDelete sample_open = Some t"
    and d: "pending (tasks_step sample_open ConfirmDelete) =
      pending sample_open @ [DeleteRequest (delete_url (task_id t)) (current_url sample_open)]"
    using confirm_delete_issues_request [OF r o] by blast
  have "taskToDelete sample_open = Some sample_task" by code_simp
  with t have "t = sample_task" by simp
  with d r o u p show ?thesis by (simp add: sample_task_def delete_url_def tasks_endpoint_def)
qed

text \<open>
  C3. Every handled change of the query state (search term, either filter,
  previous or next page) issues exactly one list request, for the new query,
  and shows the loading state with the error cleared; an ignored event (an
  unchanged search term or a disabled button) changes nothing.
\<close>

theorem query_event_one_request:
  assumes "is_query_event e"
  shows "tasks_step s e = s \<or>
         (pending (tasks_step s e) = pending s @ [ListRequest (current_url (tasks_step s e))] \<and>
          loading (tasks_step s e) \<and> error (tasks_step s e) = None \<and>
          tasks (tasks_step s e) = tasks s \<and> taskToDelete (tasks_step s e) = taskToDelete s)"
  using assms by (cases e) (simp_all add: query_ops_defs current_url_def)

theorem query_event_one_request_witness:
  "is_query_event (SetStatus ''completed'') \<and>
   pending (tasks_step tasks_mount (SetStatus ''completed'')) =
     pending tasks_mount @ [ListRequest ''http://localhost:8000/api/tasks?status=completed&skip=0&limit=10'']"
proof -
  have q: "is_query_event (SetStatus ''completed'')" by simp
  have ne: "tasks_step tasks_mount (SetStatus ''completed'') \<noteq> tasks_mount" by code_simp
  have u: "current_url (tasks_step tasks_mount (SetStatus ''completed'')) =
      ''http://localhost:8000/api/tasks?status=completed&skip=0&limit=10''" by code_simp
  show ?thesis using query_event_one_request [OF q, of tasks_mount] ne u q by simp
qed

lemma map_of_list_params:
  "map_of (list_params f q p) ''status'' =
     (if filter_status f = ''all'' then None else Some (filter_status f))"
  "map_of (list_params f q p) ''priority'' =
     (if filter_priority f = ''all'' then None else Some (filter_priority f))"
  "map_of (list_params f q p) ''search'' = (if q = [] then None else Some q)"
  "map_of (list_params f q p) ''skip'' = Some (decimal (p * TASKS_PER_PAGE))"
  "map_of (list_params f q p) ''limit'' = Some (decimal TASKS_PER_PAGE)"
  by (simp_all add: list_params_def params_append_def Let_def)

lemma list_url_query:
  "drop (length tasks_endpoint + 1) (list_url f q p) = params_to_string (list_params f q p)"
  by (simp add: list_url_def)

text \<open>
  C4. The list request says what the query state says: the parameters the
  collaborator decodes from the request URL carry the status and the priority
  filter exactly when they are not \<open>all\<close>, the search term exactly when it is
  not empty, the offset \<open>skip\<close> = 10 * page and the page size \<open>limit\<close> = 10.
\<close>

theorem list_request_decoded:
  "let ps = parse_query (drop (length tasks_endpoint + 1) (list_url f q p)) in
     map_of ps ''status'' = (if filter_status f = ''all'' then None else Some (filter_status f)) \<and>
     map_of ps ''priority'' = (if filter_priority f = ''all'' then None else Some (filter_priority f)) \<and>
     map_of ps ''search'' = (if q = [] then None else Some q) \<and>
     map_option parse_decimal (map_of ps ''skip'') = Some (10 * p) \<and>
     map_option parse_decimal (map_of ps ''limit'') = Some 10"
  unfolding Let_def list_url_query parse_query_params_to_string map_of_list_params
  by (simp add: parse_decimal_decimal TASKS_PER_PAGE_def)

lemma map_of_list_params_spec:
  "map_of (list_params f q p) k =
     spec_request_params \<lparr>qs_status = filter_status f, qs_priority = filter_priority f,
       qs_search = q, qs_offset = p * TASKS_PER_PAGE\<rparr> k"
  by (simp add: list_params_def params_append_def spec_request_params_def TASKS_PER_PAGE_def Let_def)

text \<open>
  C27. The page refines the spec's query-state controller: the parameters
  decoded from the current list URL are exactly the spec's parameters of the
  abstract query state, and each query event acts on the abstract state as
  the spec's operation does (set a filter, set the search term, move the
  offset by one page; Previous at offset 0 stays at 0, Next on a short page
  stays).
\<close>

theorem list_query_refinement:
  "map_of (parse_query (drop (length tasks_endpoint + 1) (current_url s))) = spec_request_params (abs_query s) \<and>
   abs_query (tasks_step s (SetStatus v)) = (abs_query s)\<lparr>qs_status := v\<rparr> \<and>
   abs_query (tasks_step s (SetPriority v)) = (abs_query s)\<lparr>qs_priority := v\<rparr> \<and>
   abs_query (tasks_step s (SetSearch v)) = (abs_query s)\<lparr>qs_search := v\<rparr> \<and>
   abs_query (tasks_step s PrevPage) = (abs_query s)\<lparr>qs_offset := qs_offset (abs_query s) - TASKS_PER_PAGE\<rparr> \<and>
   abs_query (tasks_step s NextPage) =
     (if next_disabled s then abs_query s
      else (abs_query s)\<lparr>qs_offset := qs_offset (abs_query s) + TASKS_PER_PAGE\<rparr>)"
proof -
  have "map_of (parse_query (drop (length tasks_endpoint + 1) (current_url s))) = spec_request_params (abs_query s)"
    unfolding current_url_def list_url_query parse_query_params_to_string
    by (rule ext) (simp add: map_of_list_params_spec abs_query_def)
  moreover have "abs_query (tasks_step s PrevPage) = (abs_query s)\<lparr>qs_offset := qs_offset (abs_query s) - TASKS_PER_PAGE\<rparr>"
    by (simp add: prevPage_def prev_disabled_def abs_query_def fetchTasks_def issue_fetch_def
        diff_mult_distrib TASKS_PER_PAGE_def)
  ultimately show ?thesis
    by (simp add: query_ops_defs abs_query_def TASKS_PER_PAGE_def)
qed

text \<open>
  C31. The loading view always ends: from every reachable state, letting the
  requests in flight settle oldest first, whatever the collaborator answers,
  empties the list of requests in flight within twice as many settlements
  as there are requests now (a successful DELETE issues one more list
  request, a list response issues none), and the page is then not loading.
\<close>

theorem loading_ends_after_settling:
  assumes "tasks_reach s" and "2 * length (pending s) \<le> n"
  shows "pending (settle_oldest al ad n s) = [] \<and> \<not> loading (settle_oldest al ad n s)"
proof -
  have p: "pending (settle_oldest al ad n s) = []"
    using pending_weight_le [of s] assms(2) by (intro settle_oldest_empties) simp
  have "tasks_inv (settle_oldest al ad n s)"
    by (rule tasks_reach_inv [OF settle_oldest_reach [OF assms(1)]])
  with p show ?thesis by (simp add: tasks_inv_def list_in_flight_def)
qed

theorem loading_ends_after_settling_witness:
  "tasks_reach sample_deleting \<and> 2 * length (pending sample_deleting) \<le> 2 \<and>
   \<not> loading (settle_oldest (\<lambda>_ _. HttpResponse 200 (JsonValue (Some [])))
                (\<lambda>_ _. HttpResponse 200 (JsonValue ())) 2 sample_deleting)"
proof -
  have r: "tasks_reach sample_deleting"
    unfolding sample_deleting_def sample_open_def
    by (rule tasks_reach.step [OF tasks_reach_run [OF tasks_reach.mount]])
  have l: "2 * length (pending sample_deleting) \<le> 2" by code_simp
  from loading_ends_after_settling [OF r l] r l show ?thesis by simp
qed

text \<open>
  C5. Changing the search term or a filter does not reset the page: the new
  request keeps the current offset (the spec's open question, confirmed as
  the code's behaviour).
\<close>

theorem filter_change_keeps_page:
  "page (tasks_step s (SetSearch v)) = page s \<and>
   page (tasks_step s (SetStatus v)) = page s \<and>
   page (tasks_step s (SetPriority v)) = page s"
  by (simp add: query_ops_defs)

text \<open>
  C6. The pagination buttons act exactly when they are enabled: Next changes
  the page (and refetches) exactly when the last loaded page is full, Previous
  exactly when the page is not the first.
\<close>

theorem pagination_enabled_iff:
  "(tasks_step s NextPage \<noteq> s \<longleftrightarrow> TASKS_PER_PAGE \<le> length (tasks s)) \<and>
   (tasks_step s PrevPage \<noteq> s \<longleftrightarrow> 0 < page s)"
proof -
  have "fetchTasks (s\<lparr>page := p\<rparr>) \<noteq> s" for p
  proof
    assume "fetchTasks (s\<lparr>page := p\<rparr>) = s"
    then have "length (pending (fetchTasks (s\<lparr>page := p\<rparr>))) = length (pending s)" by simp
    then show False by (simp add: fetchTasks_def issue_fetch_def)
  qed
  then show ?thesis
    by (auto simp: nextPage_def prevPage_def next_disabled_def prev_disabled_def)
qed

text \<open>
  C7. A list response, on every branch: the loading flag is cleared and the
  request leaves the pending list; a successful response replaces the tasks
  with its data (an empty list for \<open>null\<close>) and leaves the error as it was;
  a network failure, a non-success status or an unreadable body keeps the
  tasks and sets the fixed error message. The query state is not touched.
\<close>

theorem list_response_outcome:
  assumes "i < length (pending s)" and "pending s ! i = ListRequest u"
  shows "let s' = tasks_step s (ListResolved i r) in
     \<not> loading s' \<and> pending s' = del_at i (pending s) \<and> filters s' = filters s \<and>
     searchTerm s' = searchTerm s \<and> page s' = page s \<and>
     (case fetch_json r of
        Some d \<Rightarrow> tasks s' = (case d of None \<Rightarrow> [] | Some ts \<Rightarrow> ts) \<and> error s' = error s
      | None \<Rightarrow> tasks s' = tasks s \<and> error s' = Some list_error_msg)"
  using assms by (cases r) (auto simp: resolve_list_def fetch_simps split: json_body.splits)

theorem list_response_outcome_witness:
  "0 < length (pending tasks_mount) \<and>
   pending tasks_mount ! 0 = ListRequest ''http://localhost:8000/api/tasks?skip=0&limit=10'' \<and>
   tasks (tasks_step tasks_mount (ListResolved 0 (FetchFailed ''Failed to fetch''))) = [] \<and>
   error (tasks_step tasks_mount (ListResolved 0 (FetchFailed ''Failed to fetch''))) = Some list_error_msg"
proof -
  have p: "pending tasks_mount = [ListRequest ''http://localhost:8000/api/tasks?skip=0&limit=10'']"
    by code_simp
  have t: "tasks tasks_mount = []" by (simp add: tasks_mount_def tasks_initial_def query_ops_defs)
  from p have "0 < length (pending tasks_mount)"
    "pending tasks_mount ! 0 = ListRequest ''http://localhost:8000/api/tasks?skip=0&limit=10''" by simp_all
  with list_response_outcome [of 0 tasks_mount _ "FetchFailed ''Failed to fetch''"] t
  show ?thesis by (simp add: fetch_simps Let_def)
qed

text \<open>
  C8. A DELETE response, on every branch: the confirmation state is cleared
  (dialog closed, no task held) whatever the outcome and the table is not
  spliced locally; on success the page refetches with the list URL captured
  when Continue was pressed; on failure nothing is refetched and the error
  shows the thrown message (the fetch error's own message on a network
  failure, \<open>Failed to delete task\<close> on a non-success status).
\<close>

theorem delete_response_outcome:
  assumes "i < length (pending s)" and "pending s ! i = DeleteRequest tid url"
  shows "let s' = tasks_step s (DeleteResolved i r) in
     \<not> isDeleteDialogOpen s' \<and> taskToDelete s' = None \<and> tasks s' = tasks s \<and>
     (if response_ok r
      then pending s' = del_at i (pending s) @ [ListRequest url] \<and> loading s' \<and> error s' = None
      else pending s' = del_at i (pending s) \<and> loading s' = loading s \<and>
           error s' = Some (case r of FetchFailed m \<Rightarrow> m | HttpResponse _ _ \<Rightarrow> delete_error_msg))"
  using assms by (cases r) (simp_all add: resolve_delete_def fetch_simps delete_finally_def
      issue_fetch_def)

theorem delete_response_outcome_witness:
  "0 < length (pending sample_deleting) \<and>
   pending sample_deleting ! 0 = DeleteRequest ''http://localhost:8000/api/tasks/t1'' ''http://localhost:8000/api/tasks?skip=0&limit=10'' \<and>
   error (tasks_step sample_deleting (DeleteResolved 0 (HttpResponse 500 (JsonValue ())))) =
     Some ''Failed to delete task'' \<and>
   taskToDelete (tasks_step sample_deleting (DeleteResolved 0 (HttpResponse 500 (JsonValue ())))) = None"
proof -
  have p: "pending sample_deleting =
      [DeleteRequest ''http://localhost:8000/api/tasks/t1'' ''http://localhost:8000/api/tasks?skip=0&limit=10'']"
    by code_simp
  then have h: "0 < length (pending sample_deleting)"
    "pending sample_deleting ! 0 = DeleteRequest ''http://localhost:8000/api/tasks/t1'' ''http://localhost:8000/api/tasks?skip=0&limit=10''"
    by simp_all
  from delete_response_outcome [OF h, of "HttpResponse 500 (JsonValue ())"] h
  show ?thesis by (simp add: fetch_simps delete_error_msg_def Let_def)
qed

text \<open>
  C9. The last response to resolve wins, even when it answers a superseded
  query: whenever two list requests are in flight and the newer one
  resolves first, a successful response to the older one replaces the table
  with the older query's data while the filters, the search term and the
  page stay those of the newer query, and the spinner is gone. After the
  status filter is set to \<open>completed\<close>, the page can so show a pending task
  under the \<open>completed\<close> filter.
\<close>

theorem stale_response_shown:
  assumes "i < j" and "j < length (pending s)"
    and "pending s ! i = ListRequest u_old" and "pending s ! j = ListRequest u_new"
    and "fetch_json r_new = Some d_new" and "fetch_json r_old = Some d_old"
  shows "let s2 = tasks_step (tasks_step s (ListResolved j r_new)) (ListResolved i r_old) in
     tasks s2 = (case d_old of None \<Rightarrow> [] | Some ts \<Rightarrow> ts) \<and> \<not> loading s2 \<and>
     filters s2 = filters s \<and> searchTerm s2 = searchTerm s \<and> page s2 = page s"
proof -
  let ?s1 = "tasks_step s (ListResolved j r_new)"
  have s1: "?s1 = s\<lparr>pending := del_at j (pending s), tasks := (case d_new of None \<Rightarrow> [] | Some ts \<Rightarrow> ts),
      loading := False\<rparr>"
    by (rule resolve_list_success [OF assms(2,4,5)])
  have "i < length (pending ?s1)" and "pending ?s1 ! i = ListRequest u_old"
    using assms(1-3) unfolding s1 by simp_all
  from resolve_list_success [OF this assms(6)] show ?thesis unfolding s1 Let_def by simp
qed

theorem stale_response_shown_witness:
  "let s = tasks_step tasks_mount (SetStatus ''completed'') in
   0 < (1::nat) \<and> 1 < length (pending s) \<and>
   pending s ! 0 = ListRequest ''http://localhost:8000/api/tasks?skip=0&limit=10'' \<and>
   pending s ! 1 = ListRequest ''http://localhost:8000/api/tasks?status=completed&skip=0&limit=10'' \<and>
   tasks (tasks_step (tasks_step s (ListResolved 1 (HttpResponse 200 (JsonValue (Some [done_task])))))
     (ListResolved 0 (HttpResponse 200 (JsonValue (Some [sample_task]))))) = [sample_task] \<and>
   status sample_task \<noteq> ''completed'' \<and> filter_status (filters s) = ''completed''"
proof -
  let ?s = "tasks_step tasks_mount (SetStatus ''completed'')"
  have p: "pending ?s = [ListRequest ''http://localhost:8000/api/tasks?skip=0&limit=10'',
      ListRequest ''http://localhost:8000/api/tasks?status=completed&skip=0&limit=10'']" by code_simp
  have f: "filter_status (filters ?s) = ''completed''" by code_simp
  have st: "status sample_task \<noteq> ''completed''" by (simp add: sample_task_def)
  have h: "0 < (1::nat)" "1 < length (pending ?s)"
    "pending ?s ! 0 = ListRequest ''http://localhost:8000/api/tasks?skip=0&limit=10''"
    "pending ?s ! 1 = ListRequest ''http://localhost:8000/api/tasks?status=completed&skip=0&limit=10''"
    using p by simp_all
  have ok: "fetch_json (HttpResponse 200 (JsonValue (Some [done_task])) :: task list option fetch_result) =
      Some (Some [done_task])"
    "fetch_json (HttpResponse 200 (JsonValue (Some [sample_task])) :: task list option fetch_result) =
      Some (Some [sample_task])" by (simp_all add: fetch_simps)
  from stale_response_shown [OF h ok] h f st show ?thesis by (simp add: Let_def)
qed

text \<open>
  C10. Cancelling the confirmation only closes the dialog: the task chosen
  for deletion stays in \<open>taskToDelete\<close> and no request is issued.
\<close>

theorem cancel_keeps_task_to_delete:
  "isDeleteDialogOpen s \<Longrightarrow>
     \<not> isDeleteDialogOpen (tasks_step s CancelDelete) \<and>
     taskToDelete (tasks_step s CancelDelete) = taskToDelete s \<and>
     pending (tasks_step s CancelDelete) = pending s"
  by (simp add: cancelDelete_def)

theorem cancel_keeps_task_to_delete_witness:
  "isDeleteDialogOpen sample_open \<and> taskToDelete (tasks_step sample_open CancelDelete) = Some sample_task"
proof -
  have o: "isDeleteDialogOpen sample_open" by code_simp
  have t: "taskToDelete sample_open = Some sample_task" by code_simp
  from cancel_keeps_task_to_delete [OF o] o t show ?thesis by simp
qed

end
