(* ===== verification/Task_Edit.thy ===== *)
theory Task_Edit
  imports Url_Params
begin

text \<open>
  The edit page, src/frontend/src/app/tasks/edit/[id]/page.js
  (\<open>EditTaskPage\<close>). Its React state is the record \<open>edit_page\<close>; the GET
  and PUT requests in flight are explicit, and the page's effects on the
  outside (\<open>router.push\<close>, \<open>router.back\<close>, \<open>alert\<close>) are logged in the state.
  The form is an HTML form: the browser runs \<open>onSubmit\<close> only when the
  \<open>required\<close> title is not empty and the submit button is not disabled.
\<close>

section \<open>State\<close>

record form_data =
  form_title :: string
  form_description :: json_str
  form_status :: string
  form_priority :: string
  form_due_date :: string

datatype form_field = FieldTitle | FieldDescription | FieldStatus | FieldPriority | FieldDueDate

datatype navigation = Push string | Back

record edit_page =
  taskId :: string
  edit_loading :: bool
  saving :: bool
  loaded_task :: "task option"
  formData :: form_data
  get_pending :: bool
  puts :: "form_data list"
  navigations :: "navigation list"
  alerts :: "string list"

definition initial_form :: form_data where
  "initial_form = \<lparr>form_title = [], form_description = Str [], form_status = ''pending'',
     form_priority = ''medium'', form_due_date = []\<rparr>"

definition edit_initial :: "string \<Rightarrow> edit_page" where
  "edit_initial tid = \<lparr>taskId = tid, edit_loading = True, saving = False, loaded_task = None,
     formData = initial_form, get_pending = False, puts = [], navigations = [], alerts = []\<rparr>"

definition task_url :: "string \<Rightarrow> string" where
  "task_url tid = ''http://localhost:8000/api/tasks/'' @ tid"

text \<open>The mount effect (lines 34--38): fetch the task when the route gives an id.\<close>

definition edit_mount :: "string \<Rightarrow> edit_page" where
  "edit_mount tid = (let s = edit_initial tid in if tid \<noteq> [] then s\<lparr>get_pending := True\<rparr> else s)"

section \<open>Operations\<close>

text \<open>
  \<open>fetchTask\<close> after its \<open>await\<close> (lines 42--58). A non-success status does
  nothing; a network failure or unreadable JSON is only logged; a JSON
  \<open>null\<close> is stored by \<open>setTask\<close> and then throws on \<open>taskData.title\<close>. The
  description is copied as it is, the due date through \<open>|| ''\<close>.
\<close>

definition seed_form :: "task \<Rightarrow> form_data" where
  "seed_form t = \<lparr>form_title = title t, form_description = description t, form_status = status t,
     form_priority = priority t, form_due_date = js_or (due_date t) []\<rparr>"

fun get_resolved :: "task option fetch_result \<Rightarrow> edit_page \<Rightarrow> edit_page" where
  "get_resolved (FetchFailed m) s = s\<lparr>edit_loading := False\<rparr>"
| "get_resolved (HttpResponse st body) s =
     (if \<not> http_ok st then s\<lparr>edit_loading := False\<rparr>
      else case body of
        JsonError m \<Rightarrow> s\<lparr>edit_loading := False\<rparr>
      | JsonValue None \<Rightarrow> s\<lparr>loaded_task := None, edit_loading := False\<rparr>
      | JsonValue (Some t) \<Rightarrow> s\<lparr>loaded_task := Some t, formData := seed_form t, edit_loading := False\<rparr>)"

text \<open>\<open>handleChange\<close> (lines 87--89) for each input of the form.\<close>

fun set_field :: "form_field \<Rightarrow> string \<Rightarrow> form_data \<Rightarrow> form_data" where
  "set_field FieldTitle v f = f\<lparr>form_title := v\<rparr>"
| "set_field FieldDescription v f = f\<lparr>form_description := Str v\<rparr>"
| "set_field FieldStatus v f = f\<lparr>form_status := v\<rparr>"
| "set_field FieldPriority v f = f\<lparr>form_priority := v\<rparr>"
| "set_field FieldDueDate v f = f\<lparr>form_due_date := v\<rparr>"

text \<open>Which view the page renders (lines 91--128).\<close>

datatype edit_view = EditSkeleton | TaskNotFound | EditForm

definition edit_view :: "edit_page \<Rightarrow> edit_view" where
  "edit_view s = (if edit_loading s then EditSkeleton else if loaded_task s = None then TaskNotFound else EditForm)"

definition handleChange :: "form_field \<Rightarrow> string \<Rightarrow> edit_page \<Rightarrow> edit_page" where
  "handleChange fld v s =
     (if edit_view s = EditForm then s\<lparr>formData := set_field fld v (formData s)\<rparr> else s)"

text \<open>
  Submitting (lines 61--72, 136, 142, 204): the browser's constraint
  validation blocks an empty required title and a disabled submit button
  blocks submission while saving; otherwise \<open>handleSubmit\<close> sets saving and
  issues the PUT with the whole form as body.
\<close>

definition submit_allowed :: "edit_page \<Rightarrow> bool" where
  "submit_allowed s \<longleftrightarrow> edit_view s = EditForm \<and> \<not> saving s \<and> form_title (formData s) \<noteq> []"

definition handleSubmit :: "edit_page \<Rightarrow> edit_page" where
  "handleSubmit s = (if submit_allowed s then s\<lparr>saving := True, puts := puts s @ [formData s]\<rparr> else s)"

definition update_failed_msg :: string where
  "update_failed_msg = ''Failed to update task''"

text \<open>
  \<open>handleSubmit\<close> after its \<open>await\<close> (lines 74--84): navigate to the list on
  success, otherwise alert the collaborator's \<open>detail\<close> or the generic
  message; \<open>finally\<close> clears saving. The body of an error response is read as
  its \<open>detail\<close> field.
\<close>

fun put_resolved :: "js_str fetch_result \<Rightarrow> edit_page \<Rightarrow> edit_page" where
  "put_resolved (FetchFailed m) s = s\<lparr>alerts := alerts s @ [update_failed_msg], saving := False\<rparr>"
| "put_resolved (HttpResponse st body) s =
     (if http_ok st then s\<lparr>navigations := navigations s @ [Push ''/tasks''], saving := False\<rparr>
      else case body of
        JsonError m \<Rightarrow> s\<lparr>alerts := alerts s @ [update_failed_msg], saving := False\<rparr>
      | JsonValue detail \<Rightarrow> s\<lparr>alerts := alerts s @ [js_or detail update_failed_msg], saving := False\<rparr>)"

text \<open>The message \<open>alert\<close> shows when a PUT fails (lines 77--81).\<close>

definition put_alert :: "js_str fetch_result \<Rightarrow> string" where
  "put_alert r =
     (case r of HttpResponse st (JsonValue d) \<Rightarrow> js_or d update_failed_msg | _ \<Rightarrow> update_failed_msg)"

text \<open>
  The body \<open>JSON.stringify(formData)\<close> of the PUT (line 71): the keys in the
  order the form object has them, each with its JSON value; a description
  that is \<open>undefined\<close> is left out and a \<open>null\<close> one is written as \<open>null\<close>.
\<close>

datatype json_val = JString string | JNull

definition put_body :: "form_data \<Rightarrow> (string \<times> json_val) list" where
  "put_body f =
     [(''title'', JString (form_title f))] @
     (case form_description f of
        Absent \<Rightarrow> []
      | Null \<Rightarrow> [(''description'', JNull)]
      | Str d \<Rightarrow> [(''description'', JString d)]) @
     [(''status'', JString (form_status f)), (''priority'', JString (form_priority f)),
      (''due_date'', JString (form_due_date f))]"

datatype edit_event =
    GetResolved "task option fetch_result"
  | ChangeField form_field string
  | Submit
  | PutResolved "js_str fetch_result"
  | CancelEdit
  | BackToTasks

fun edit_step :: "edit_page \<Rightarrow> edit_event \<Rightarrow> edit_page" where
  "edit_step s (GetResolved r) = (if get_pending s then get_resolved r (s\<lparr>get_pending := False\<rparr>) else s)"
| "edit_step s (ChangeField fld v) = handleChange fld v s"
| "edit_step s Submit = handleSubmit s"
| "edit_step s (PutResolved r) =
     (case puts s of [] \<Rightarrow> s | b # bs \<Rightarrow> put_resolved r (s\<lparr>puts := bs\<rparr>))"
| "edit_step s CancelEdit =
     (if edit_view s = EditForm then s\<lparr>navigations := navigations s @ [Back]\<rparr> else s)"
| "edit_step s BackToTasks =
     (if edit_view s = TaskNotFound then s\<lparr>navigations := navigations s @ [Push ''/tasks'']\<rparr> else s)"

definition edit_run :: "edit_page \<Rightarrow> edit_event list \<Rightarrow> edit_page" where
  "edit_run s es = foldl edit_step s es"

inductive edit_reach :: "edit_page \<Rightarrow> bool" where
  mount: "edit_reach (edit_mount tid)"
| step: "edit_reach s \<Longrightarrow> edit_reach (edit_step s e)"

section \<open>Invariant\<close>

text \<open>
  At most one PUT is in flight and \<open>saving\<close> says whether one is; the
  skeleton is shown only while the GET is in flight or when the route gave
  no id; the route's id never changes.
\<close>

definition edit_inv :: "string \<Rightarrow> edit_page \<Rightarrow> bool" where
  "edit_inv tid s \<longleftrightarrow>
     taskId s = tid \<and> length (puts s) \<le> 1 \<and> (saving s \<longleftrightarrow> puts s \<noteq> []) \<and>
     (edit_loading s \<longrightarrow> get_pending s \<or> tid = []) \<and> (get_pending s \<longrightarrow> edit_loading s)"

text \<open>
  Where a body without description comes from: a form whose description is
  \<open>undefined\<close> holds the description of a task read without the key. While the
  GET is in flight the skeleton is shown, the form is still the initial one
  and nothing was sent.
\<close>

definition desc_read_absent :: "edit_page \<Rightarrow> form_data \<Rightarrow> bool" where
  "desc_read_absent s f \<longleftrightarrow>
     (form_description f = Absent \<longrightarrow>
        (case loaded_task s of Some t \<Rightarrow> description t = Absent | None \<Rightarrow> False))"

definition body_inv :: "edit_page \<Rightarrow> bool" where
  "body_inv s \<longleftrightarrow>
     (get_pending s \<longrightarrow> edit_loading s \<and> formData s = initial_form \<and> puts s = []) \<and>
     list_all (desc_read_absent s) (formData s # puts s)"

text \<open>A task and the page showing its form, from which the witnesses start.\<close>

definition sample_edit_task :: task where
  "sample_edit_task = \<lparr>task_id = ''t1'', title = ''Write report'', description = Absent,
     status = ''in_progress'', priority = ''medium'', due_date = None\<rparr>"

definition sample_form_page :: edit_page where
  "sample_form_page = edit_run (edit_mount ''t1'')
     [GetResolved (HttpResponse 200 (JsonValue (Some sample_edit_task)))]"

section \<open>Lemmas\<close>

lemmas edit_ops_defs = handleChange_def handleSubmit_def submit_allowed_def edit_view_def

lemma put_response_outcome_nav:
  "puts s \<noteq> [] \<Longrightarrow> response_ok r \<Longrightarrow>
   navigations (edit_step s (PutResolved r)) = navigations s @ [Push ''/tasks'']"
  by (cases r) (auto simp: fetch_simps neq_Nil_conv)

lemma edit_inv_mount: "edit_inv tid (edit_mount tid)"
  by (simp add: edit_inv_def edit_mount_def edit_initial_def Let_def)

lemma get_resolved_fields:
  "taskId (get_resolved r s) = taskId s \<and> saving (get_resolved r s) = saving s \<and>
   puts (get_resolved r s) = puts s \<and> get_pending (get_resolved r s) = get_pending s \<and>
   \<not> edit_loading (get_resolved r s)"
  by (cases r) (auto split: json_body.splits option.splits)

lemma put_resolved_fields:
  "taskId (put_resolved r s) = taskId s \<and> \<not> saving (put_resolved r s) \<and>
   puts (put_resolved r s) = puts s \<and> get_pending (put_resolved r s) = get_pending s \<and>
   edit_loading (put_resolved r s) = edit_loading s \<and> loaded_task (put_resolved r s) = loaded_task s \<and>
   formData (put_resolved r s) = formData s"
  by (cases r) (auto split: json_body.splits)

lemma edit_inv_frame:
  "edit_inv tid s \<Longrightarrow> taskId t = taskId s \<Longrightarrow> saving t = saving s \<Longrightarrow> puts t = puts s \<Longrightarrow>
   get_pending t = get_pending s \<Longrightarrow> edit_loading t = edit_loading s \<Longrightarrow> edit_inv tid t"
  by (simp add: edit_inv_def)

lemma edit_inv_put:
  assumes i: "edit_inv tid s"
  shows "edit_inv tid (edit_step s (PutResolved r))"
proof (cases "puts s")
  case Nil
  with i show ?thesis by simp
next
  case (Cons b bs)
  with i have "bs = []" by (simp add: edit_inv_def)
  moreover note put_resolved_fields [of r "s\<lparr>puts := bs\<rparr>"]
  ultimately show ?thesis using i Cons by (simp add: edit_inv_def)
qed

lemma edit_inv_submit: "edit_inv tid s \<Longrightarrow> edit_inv tid (handleSubmit s)"
  by (auto simp: handleSubmit_def submit_allowed_def edit_inv_def)

lemma edit_step_inv: "edit_inv tid s \<Longrightarrow> edit_inv tid (edit_step s e)"
proof (cases e)
  case (PutResolved r)
  assume i: "edit_inv tid s"
  from edit_inv_put [OF i, of r] PutResolved show ?thesis by simp
next
  case (GetResolved r)
  assume "edit_inv tid s"
  then show ?thesis using GetResolved get_resolved_fields [of r]
    by (auto simp: edit_inv_def)
next
  case Submit
  assume "edit_inv tid s"
  then show ?thesis using Submit by (simp add: edit_inv_submit)
next
  case (ChangeField fld v)
  assume i: "edit_inv tid s"
  show ?thesis using ChangeField by (simp add: handleChange_def edit_inv_frame [OF i])
next
  case CancelEdit
  assume i: "edit_inv tid s"
  show ?thesis using CancelEdit by (simp add: edit_inv_frame [OF i])
next
  case BackToTasks
  assume i: "edit_inv tid s"
  show ?thesis using BackToTasks by (simp add: edit_inv_frame [OF i])
qed

lemma edit_reach_inv: "edit_reach s \<Longrightarrow> edit_inv (taskId s) s"
proof (induction rule: edit_reach.induct)
  case (mount tid)
  show ?case using edit_inv_mount [of tid] by (simp add: edit_inv_def)
next
  case (step s e)
  from step.IH have "edit_inv (taskId s) (edit_step s e)" by (rule edit_step_inv)
  then show ?case by (simp add: edit_inv_def)
qed

lemma edit_reach_run: "edit_reach s \<Longrightarrow> edit_reach (edit_run s es)"
  by (induction es arbitrary: s) (simp_all add: edit_run_def edit_reach.step)

lemma set_field_description_Absent:
  "form_description (set_field fld v f) = Absent \<Longrightarrow> form_description f = Absent"
  by (cases fld) simp_all

lemma desc_read_absent_loaded:
  "loaded_task t = loaded_task s \<Longrightarrow> desc_read_absent t = desc_read_absent s"
  by (simp add: desc_read_absent_def fun_eq_iff)

lemma desc_read_absent_updates [simp]:
  "desc_read_absent (s\<lparr>formData := f\<rparr>) = desc_read_absent s"
  "desc_read_absent (s\<lparr>saving := b, puts := ps\<rparr>) = desc_read_absent s"
  "desc_read_absent (s\<lparr>navigations := n\<rparr>) = desc_read_absent s"
  by (simp_all add: desc_read_absent_def fun_eq_iff)

lemma body_inv_get:
  assumes "body_inv s"
  shows "body_inv (edit_step s (GetResolved r))"
proof (cases "get_pending s")
  case True
  with assms have f: "formData s = initial_form" and p: "puts s = []" by (simp_all add: body_inv_def)
  show ?thesis
    using True f p get_resolved_fields [of r "s\<lparr>get_pending := False\<rparr>"]
    by (cases r) (auto simp: body_inv_def desc_read_absent_def initial_form_def seed_form_def
        split: json_body.splits option.splits)
qed (use assms in simp)

lemma body_inv_step:
  assumes b: "body_inv s"
  shows "body_inv (edit_step s e)"
proof (cases e)
  case (GetResolved r)
  from body_inv_get [OF b, of r] GetResolved show ?thesis by simp
next
  case (ChangeField fld v)
  have "desc_read_absent s (set_field fld v (formData s))"
    using b by (auto simp: body_inv_def desc_read_absent_def dest: set_field_description_Absent)
  with b ChangeField show ?thesis
    by (auto simp: handleChange_def edit_view_def body_inv_def)
next
  case Submit
  with b show ?thesis
    by (auto simp: handleSubmit_def submit_allowed_def edit_view_def body_inv_def)
next
  case (PutResolved r)
  show ?thesis
  proof (cases "puts s")
    case (Cons x xs)
    have "desc_read_absent (put_resolved r (s\<lparr>puts := xs\<rparr>)) = desc_read_absent s"
      using put_resolved_fields [of r "s\<lparr>puts := xs\<rparr>"] by (intro desc_read_absent_loaded) simp
    with b Cons PutResolved put_resolved_fields [of r "s\<lparr>puts := xs\<rparr>"] show ?thesis
      by (simp add: body_inv_def)
  qed (use b PutResolved in simp)
qed (use b in \<open>simp_all add: body_inv_def\<close>)

lemma edit_reach_body_inv: "edit_reach s \<Longrightarrow> body_inv s"
proof (induction rule: edit_reach.induct)
  case (mount tid)
  show ?case
    by (simp add: body_inv_def desc_read_absent_def edit_mount_def edit_initial_def initial_form_def Let_def)
next
  case (step s e)
  from step.IH show ?case by (rule body_inv_step)
qed

section \<open>Properties of the edit page\<close>

text \<open>
  C11. Single flight: in every reachable state at most one PUT is in flight,
  and \<open>saving\<close> (which disables the submit button) is set exactly while one is.
\<close>

theorem single_flight_put:
  "edit_reach s \<Longrightarrow> length (puts s) \<le> 1 \<and> (saving s \<longleftrightarrow> puts s \<noteq> [])"
  using edit_reach_inv by (simp add: edit_inv_def)

theorem single_flight_put_witness:
  "edit_reach (edit_mount ''t1'') \<and> length (puts (edit_mount ''t1'')) \<le> 1"
  using single_flight_put [OF edit_reach.mount [of "''t1''"]] edit_reach.mount [of "''t1''"] by simp

text \<open>
  C12. Submitting: in a reachable state a submit issues a PUT of the whole
  form exactly when the form is shown, nothing is being saved and the title
  is not empty; with an empty title it changes nothing at all.
\<close>

theorem submit_request:
  assumes "edit_reach s"
  shows "puts (edit_step s Submit) = (if submit_allowed s then [formData s] else puts s) \<and>
         (form_title (formData s) = [] \<longrightarrow> edit_step s Submit = s)"
proof -
  from assms have "saving s \<longleftrightarrow> puts s \<noteq> []"
    using edit_reach_inv by (simp add: edit_inv_def)
  then show ?thesis by (auto simp: handleSubmit_def submit_allowed_def)
qed

theorem submit_request_witness:
  "edit_reach sample_form_page \<and> submit_allowed sample_form_page \<and>
   puts (edit_step sample_form_page Submit) = [formData sample_form_page]"
proof -
  have r: "edit_reach sample_form_page"
    unfolding sample_form_page_def by (rule edit_reach_run [OF edit_reach.mount])
  have a: "submit_allowed sample_form_page" by code_simp
  from submit_request [OF r] r a show ?thesis by simp
qed

text \<open>
  C13. The GET's outcome decides the view for good, and the code does not
  tell a missing task from a failure: whatever the response, the page
  leaves its skeleton and shows the form exactly when a task was read;
  a 404, any other error status, a network failure, an unreadable body and
  a JSON \<open>null\<close> all end in the terminal "Task not found" view.
\<close>

theorem not_found_view:
  assumes "tid \<noteq> []"
  shows "edit_view (edit_step (edit_mount tid) (GetResolved r)) =
           (case fetch_json r of Some (Some t) \<Rightarrow> EditForm | _ \<Rightarrow> TaskNotFound)"
  using assms
  by (cases r) (auto simp: edit_mount_def edit_initial_def edit_view_def fetch_simps Let_def
      split: json_body.splits option.splits)

theorem not_found_view_witness:
  "''t1'' \<noteq> [] \<and>
   edit_view (edit_step (edit_mount ''t1'') (GetResolved (HttpResponse 404 (JsonValue None)))) = TaskNotFound \<and>
   edit_view (edit_step (edit_mount ''t1'') (GetResolved (FetchFailed ''Failed to fetch''))) = TaskNotFound"
proof -
  have t: "''t1'' \<noteq> []" by simp
  from not_found_view [OF t, of "HttpResponse 404 (JsonValue None)"]
    not_found_view [OF t, of "FetchFailed ''Failed to fetch''"] t
  show ?thesis by (simp add: fetch_simps)
qed

text \<open>
  C14. A successful read seeds the draft from the task: title, status and
  priority as they are, the due date through \<open>|| ''\<close> (absent becomes empty),
  and the description copied as it is, so an absent description stays absent
  rather than becoming the empty string.
\<close>

theorem get_seeds_form:
  assumes "get_pending s" and "fetch_json r = Some (Some t)"
  shows "formData (edit_step s (GetResolved r)) =
           \<lparr>form_title = title t, form_description = description t, form_status = status t,
            form_priority = priority t,
            form_due_date = (case due_date t of None \<Rightarrow> [] | Some d \<Rightarrow> d)\<rparr> \<and>
         loaded_task (edit_step s (GetResolved r)) = Some t \<and>
         edit_view (edit_step s (GetResolved r)) = EditForm"
  using assms
  by (cases r) (auto simp: fetch_simps seed_form_def edit_view_def
      split: json_body.splits if_splits option.splits)

theorem get_seeds_form_witness:
  "get_pending (edit_mount ''t1'') \<and>
   fetch_json (HttpResponse 200 (JsonValue (Some sample_edit_task))) = Some (Some sample_edit_task) \<and>
   form_description (formData (edit_step (edit_mount ''t1'')
      (GetResolved (HttpResponse 200 (JsonValue (Some sample_edit_task)))))) = Absent"
proof -
  have g: "get_pending (edit_mount ''t1'')" by (simp add: edit_mount_def edit_initial_def)
  have f: "fetch_json (HttpResponse 200 (JsonValue (Some sample_edit_task))) = Some (Some sample_edit_task)"
    by (simp add: fetch_simps)
  from get_seeds_form [OF g f] g f show ?thesis by (simp add: sample_edit_task_def)
qed

text \<open>
  C15. A PUT response: on success the page navigates to the list; on any
  failure the draft and the loaded task are kept for a retry, nothing
  navigates, and the alert shows the collaborator's \<open>detail\<close> or the generic
  message. Saving ends in both cases.
\<close>

theorem put_response_outcome:
  assumes "puts s \<noteq> []"
  shows "let s' = edit_step s (PutResolved r) in
     \<not> saving s' \<and> formData s' = formData s \<and> loaded_task s' = loaded_task s \<and>
     (if response_ok r
      then navigations s' = navigations s @ [Push ''/tasks''] \<and> alerts s' = alerts s
      else navigations s' = navigations s \<and> alerts s' = alerts s @ [put_alert r])"
  using assms
  by (cases r) (auto simp: fetch_simps put_alert_def neq_Nil_conv split: json_body.splits)

theorem put_response_outcome_witness:
  "puts (edit_step sample_form_page Submit) \<noteq> [] \<and>
   alerts (edit_step (edit_step sample_form_page Submit)
     (PutResolved (HttpResponse 422 (JsonValue (Some ''Title too long''))))) = [''Title too long'']"
proof -
  have p: "puts (edit_step sample_form_page Submit) \<noteq> []" by code_simp
  have a: "alerts (edit_step sample_form_page Submit) = []" by code_simp
  from put_response_outcome [OF p, of "HttpResponse 422 (JsonValue (Some ''Title too long''))"] p a
  show ?thesis by (simp add: fetch_simps put_alert_def Let_def fetch_simps)
qed

text \<open>
  C16. The PUT is not always a full replace. Every body sent carries title,
  status, priority and due date as strings; the description key is there
  unless the form's description is \<open>undefined\<close>, and holds \<open>null\<close> when the
  form's description is \<open>null\<close>. A body without the description key is sent
  only for a task read without that key (the field was then never edited,
  since an edit makes it a string).
\<close>

theorem put_body_omits_absent_description:
  assumes "edit_reach s" and "b \<in> set (puts s)"
  shows "map fst (put_body b) =
           [''title''] @ (if form_description b = Absent then [] else [''description'']) @
           [''status'', ''priority'', ''due_date''] \<and>
         (form_description b = Null \<longrightarrow> map_of (put_body b) ''description'' = Some JNull) \<and>
         (form_description b = Absent \<longrightarrow> (\<exists>t. loaded_task s = Some t \<and> description t = Absent))"
proof -
  from edit_reach_body_inv [OF assms(1)] assms(2) have "desc_read_absent s b"
    by (simp add: body_inv_def list_all_iff)
  then show ?thesis
    by (cases "form_description b") (auto simp: put_body_def desc_read_absent_def split: option.splits)
qed

theorem put_body_omits_absent_description_witness:
  "edit_reach (edit_step sample_form_page Submit) \<and>
   hd (puts (edit_step sample_form_page Submit)) \<in> set (puts (edit_step sample_form_page Submit)) \<and>
   map fst (put_body (hd (puts (edit_step sample_form_page Submit)))) =
     [''title'', ''status'', ''priority'', ''due_date'']"
proof -
  let ?s = "edit_step sample_form_page Submit"
  have r: "edit_reach ?s"
    unfolding sample_form_page_def by (rule edit_reach.step [OF edit_reach_run [OF edit_reach.mount]])
  have h: "hd (puts ?s) \<in> set (puts ?s)" by code_simp
  have n: "form_description (hd (puts ?s)) = Absent" by code_simp
  from put_body_omits_absent_description [OF r h] n r h show ?thesis by simp
qed

text \<open>
  C17. With a route id the skeleton always ends: in every reachable state the
  skeleton is shown only while the GET is in flight, and its response, whatever
  it is, leaves the skeleton.
\<close>

theorem skeleton_ends_on_get_response:
  assumes "edit_reach s" and "taskId s \<noteq> []" and "edit_view s = EditSkeleton"
  shows "get_pending s \<and> edit_view (edit_step s (GetResolved r)) \<noteq> EditSkeleton"
proof -
  from assms(1) have "edit_inv (taskId s) s" by (rule edit_reach_inv)
  with assms(2,3) have g: "get_pending s" by (simp add: edit_inv_def edit_view_def split: if_splits)
  with get_resolved_fields [of r "s\<lparr>get_pending := False\<rparr>"] show ?thesis
    by (simp add: edit_view_def)
qed

theorem skeleton_ends_on_get_response_witness:
  "edit_reach (edit_mount ''t1'') \<and> taskId (edit_mount ''t1'') \<noteq> [] \<and>
   edit_view (edit_mount ''t1'') = EditSkeleton \<and>
   edit_view (edit_step (edit_mount ''t1'') (GetResolved (FetchFailed ''Failed to fetch''))) \<noteq> EditSkeleton"
proof -
  have r: "edit_reach (edit_mount ''t1'')" by (rule edit_reach.mount)
  have i: "taskId (edit_mount ''t1'') \<noteq> []" by (simp add: edit_mount_def edit_initial_def)
  have v: "edit_view (edit_mount ''t1'') = EditSkeleton"
    by (simp add: edit_mount_def edit_initial_def edit_view_def)
  from skeleton_ends_on_get_response [OF r i v, of "FetchFailed ''Failed to fetch''"] r i v
  show ?thesis by blast
qed

end
