(* ===== verification/Dashboard.thy ===== *)
theory Dashboard
  imports Complex_Main Prelude
begin

text \<open>
  The dashboard, src/frontend/src/app/page.js (\<open>Dashboard\<close>). Its state is
  the record \<open>dashboard\<close>. \<open>fetchDashboardData\<close> awaits two requests one
  after the other (the statistics, then the five most recent tasks); where it
  is suspended is the field \<open>phase\<close>, so a response event answers the request
  of the current phase. The error is a string, empty for no error, as in the
  code. Progress values are JavaScript numbers (\<open>js_number\<close>): division by
  zero gives \<open>NaN\<close> or \<open>Infinity\<close>, and each finite quotient or product is
  rounded by a parameter \<open>rnd\<close>, the rounding of binary64 arithmetic.
\<close>

section \<open>State\<close>

record stats =
  total_tasks :: nat
  pending_tasks :: nat
  in_progress_tasks :: nat
  completed_tasks :: nat

datatype dash_phase = Idle | AwaitStats | AwaitRecent stats

record dashboard =
  dash_stats :: stats
  recentTasks :: "task list"
  dash_loading :: bool
  dash_error :: string
  phase :: dash_phase

definition zero_stats :: stats where
  "zero_stats = \<lparr>total_tasks = 0, pending_tasks = 0, in_progress_tasks = 0, completed_tasks = 0\<rparr>"

definition dash_initial :: dashboard where
  "dash_initial = \<lparr>dash_stats = zero_stats, recentTasks = [], dash_loading = True, dash_error = [],
     phase = Idle\<rparr>"

definition stats_url :: string where
  "stats_url = ''http://localhost:8000/api/dashboard/stats''"

definition recent_url :: string where
  "recent_url = ''http://localhost:8000/api/tasks?limit=5''"

section \<open>Operations\<close>

text \<open>\<open>fetchDashboardData\<close> up to its first \<open>await\<close> (lines 27--30).\<close>

definition fetchDashboardData :: "dashboard \<Rightarrow> dashboard" where
  "fetchDashboardData s = s\<lparr>dash_loading := True, dash_error := [], phase := AwaitStats\<rparr>"

text \<open>The mount effect (lines 22--24).\<close>

definition dash_mount :: dashboard where
  "dash_mount = fetchDashboardData dash_initial"

text \<open>The \<open>catch\<close> and \<open>finally\<close> blocks (lines 40--44).\<close>

definition dash_fail :: "string \<Rightarrow> dashboard \<Rightarrow> dashboard" where
  "dash_fail msg s = s\<lparr>dash_error := msg, dash_loading := False, phase := Idle\<rparr>"

text \<open>
  The statistics response (lines 30--32): a non-success status throws
  \<open>Failed to fetch stats\<close>, an unreadable body throws its parse error; otherwise
  the recent-tasks request is issued (line 34).
\<close>

fun stats_resolved :: "stats fetch_result \<Rightarrow> dashboard \<Rightarrow> dashboard" where
  "stats_resolved (FetchFailed m) s = dash_fail m s"
| "stats_resolved (HttpResponse st body) s =
     (if \<not> http_ok st then dash_fail ''Failed to fetch stats'' s
      else case body of
        JsonError m \<Rightarrow> dash_fail m s
      | JsonValue d \<Rightarrow> s\<lparr>phase := AwaitRecent d\<rparr>)"

text \<open>
  The recent-tasks response (lines 34--39): both results are stored only
  now, with \<open>tasksData || []\<close>.
\<close>

fun recent_resolved :: "stats \<Rightarrow> task list option fetch_result \<Rightarrow> dashboard \<Rightarrow> dashboard" where
  "recent_resolved sd (FetchFailed m) s = dash_fail m s"
| "recent_resolved sd (HttpResponse st body) s =
     (if \<not> http_ok st then dash_fail ''Failed to fetch recent tasks'' s
      else case body of
        JsonError m \<Rightarrow> dash_fail m s
      | JsonValue d \<Rightarrow>
          s\<lparr>dash_stats := sd, recentTasks := (case d of None \<Rightarrow> [] | Some ts \<Rightarrow> ts),
            dash_loading := False, phase := Idle\<rparr>)"

text \<open>Which view renders (lines 68--91): \<open>if (error)\<close> tests the string's truthiness.\<close>

datatype dash_view = DashLoading | DashError | DashMain

definition dash_view :: "dashboard \<Rightarrow> dash_view" where
  "dash_view s = (if dash_loading s then DashLoading else if dash_error s \<noteq> [] then DashError else DashMain)"

datatype dash_event = StatsResolved "stats fetch_result" | RecentResolved "task list option fetch_result" | Retry

fun dash_step :: "dashboard \<Rightarrow> dash_event \<Rightarrow> dashboard" where
  "dash_step s (StatsResolved r) = (if phase s = AwaitStats then stats_resolved r s else s)"
| "dash_step s (RecentResolved r) =
     (case phase s of AwaitRecent sd \<Rightarrow> recent_resolved sd r s | _ \<Rightarrow> s)"
| "dash_step s Retry = (if dash_view s = DashError then fetchDashboardData s else s)"

definition dash_run :: "dashboard \<Rightarrow> dash_event list \<Rightarrow> dashboard" where
  "dash_run s es = foldl dash_step s es"

inductive dash_reach :: "dashboard \<Rightarrow> bool" where
  mount: "dash_reach dash_mount"
| step: "dash_reach s \<Longrightarrow> dash_reach (dash_step s e)"

section \<open>Derived display values\<close>

text \<open>
  JavaScript numbers. A double operation gives the exact result passed
  through the rounding of the format, \<open>rnd\<close> (round to nearest binary64);
  the theorems assume of \<open>rnd\<close> only that it is monotone and exact on 0, 1
  and 100, as binary64 rounding is. Division by zero gives \<open>NaN\<close> (for 0/0)
  or \<open>Infinity\<close>; the operands here are counts, never negative.
\<close>

datatype js_number = JsNum rat | JsNaN | JsInf

definition js_div :: "(rat \<Rightarrow> rat) \<Rightarrow> rat \<Rightarrow> rat \<Rightarrow> js_number" where
  "js_div rnd x y = (if y = 0 then (if x = 0 then JsNaN else JsInf) else JsNum (rnd (x / y)))"

definition js_mul :: "(rat \<Rightarrow> rat) \<Rightarrow> js_number \<Rightarrow> rat \<Rightarrow> js_number" where
  "js_mul rnd a c =
     (case a of JsNum x \<Rightarrow> JsNum (rnd (x * c)) | JsNaN \<Rightarrow> JsNaN | JsInf \<Rightarrow> (if c = 0 then JsNaN else JsInf))"

text \<open>\<open>calculateProgress\<close> (lines 63--66): the guard, then \<open>(value / total) * 100\<close>.\<close>

definition calculateProgress :: "(rat \<Rightarrow> rat) \<Rightarrow> nat \<Rightarrow> nat \<Rightarrow> js_number" where
  "calculateProgress rnd value total_count =
     (if total_count = 0 then JsNum 0
      else js_mul rnd (js_div rnd (of_nat value) (of_nat total_count)) 100)"

text \<open>The badge colours of a recent task (lines 47--61).\<close>

definition getStatusColor :: "string \<Rightarrow> string" where
  "getStatusColor st =
     (if st = ''completed'' then ''bg-green-100 text-green-800 dark:bg-green-900/50 dark:text-green-300''
      else if st = ''in_progress'' then ''bg-blue-100 text-blue-800 dark:bg-blue-900/50 dark:text-blue-300''
      else ''bg-yellow-100 text-yellow-800 dark:bg-yellow-900/50 dark:text-yellow-300'')"

definition getPriorityColor :: "string \<Rightarrow> string" where
  "getPriorityColor p =
     (if p = ''high'' then ''border-red-500/50 bg-red-100 text-red-800 dark:bg-red-900/50 dark:text-red-300''
      else if p = ''medium'' then ''border-orange-500/50 bg-orange-100 text-orange-800 dark:bg-orange-900/50 dark:text-orange-300''
      else ''border-green-500/50 bg-green-100 text-green-800 dark:bg-green-900/50 dark:text-green-300'')"

text \<open>The recent task's description line (line 162).\<close>

definition description_text :: "task \<Rightarrow> string" where
  "description_text t = js_or (js_of (description t)) ''No description''"

section \<open>Invariant\<close>

text \<open>
  The loading view is shown exactly while \<open>fetchDashboardData\<close> is
  suspended on one of its two requests.
\<close>

definition dash_inv :: "dashboard \<Rightarrow> bool" where
  "dash_inv s \<longleftrightarrow> (dash_loading s \<longleftrightarrow> phase s \<noteq> Idle)"

lemma dash_fail_inv [simp]: "dash_inv (dash_fail m s)"
  by (simp add: dash_inv_def dash_fail_def)

lemma dash_step_inv: "dash_inv s \<Longrightarrow> dash_inv (dash_step s e)"
proof (cases e)
  case (StatsResolved r)
  assume "dash_inv s"
  then show ?thesis using StatsResolved
    by (cases r) (auto simp: dash_inv_def dash_fail_def split: json_body.splits)
next
  case (RecentResolved r)
  assume "dash_inv s"
  then show ?thesis using RecentResolved
    by (cases r) (auto simp: dash_inv_def dash_fail_def split: dash_phase.splits json_body.splits)
next
  case Retry
  assume "dash_inv s"
  then show ?thesis using Retry by (simp add: dash_inv_def fetchDashboardData_def)
qed

lemma dash_reach_inv: "dash_reach s \<Longrightarrow> dash_inv s"
proof (induction rule: dash_reach.induct)
  case mount
  show ?case by (simp add: dash_inv_def dash_mount_def fetchDashboardData_def)
next
  case (step s e)
  from step.IH show ?case by (rule dash_step_inv)
qed

lemma dash_reach_run: "dash_reach s \<Longrightarrow> dash_reach (dash_run s es)"
  by (induction es arbitrary: s) (simp_all add: dash_run_def dash_reach.step)

lemma recent_resolved_idle: "phase (recent_resolved sd r s) = Idle"
  by (cases r) (simp_all add: dash_fail_def split: json_body.splits)

lemma stats_resolved_phase:
  "phase (stats_resolved r s) = Idle \<or> (\<exists>sd. phase (stats_resolved r s) = AwaitRecent sd)"
  by (cases r) (simp_all add: dash_fail_def split: json_body.splits)

lemma progress_pos:
  "0 < t \<Longrightarrow> calculateProgress rnd p t = JsNum (rnd (rnd (of_nat p / of_nat t) * 100))"
  by (simp add: calculateProgress_def js_div_def js_mul_def)

lemma progress_zero_total [simp]: "calculateProgress rnd p 0 = JsNum 0"
  by (simp add: calculateProgress_def)

lemma rnd_le: "mono rnd \<Longrightarrow> a \<le> x \<Longrightarrow> rnd a \<le> rnd (x::rat)"
  by (rule monoD)

section \<open>Properties of the dashboard\<close>

text \<open>
  C18. Progress values are percentages and always numbers, for every
  rounding that is monotone and exact on 0, 1 and 100 (as binary64 is): a
  zero total gives 0 rather than the \<open>NaN\<close> or \<open>Infinity\<close> of a division by
  zero; every value is a finite number, not negative, and at most 100 when
  the part does not exceed the total; a part equal to a positive total
  gives exactly 100 (a percentage, where the spec's progress fraction would
  be 1), and an empty part gives 0.
\<close>

theorem progress_bounds:
  assumes "mono rnd" and "rnd 0 = 0" and "rnd 1 = 1" and "rnd 100 = 100"
  shows "(\<exists>x. calculateProgress rnd p t = JsNum x \<and> 0 \<le> x \<and> (p \<le> t \<longrightarrow> x \<le> 100)) \<and>
         calculateProgress rnd p 0 = JsNum 0 \<and> calculateProgress rnd 0 t = JsNum 0 \<and>
         (0 < t \<longrightarrow> calculateProgress rnd t t = JsNum 100)"
proof (cases "t = 0")
  case True
  then show ?thesis by (simp add: calculateProgress_def)
next
  case False
  let ?q = "of_nat p / of_nat t :: rat"
  have "0 \<le> ?q" by simp
  from rnd_le [OF assms(1) this] assms(2) have r0: "0 \<le> rnd ?q" by simp
  then have "0 \<le> rnd ?q * 100" by simp
  from rnd_le [OF assms(1) this] assms(2) have x0: "0 \<le> rnd (rnd ?q * 100)" by simp
  have "p \<le> t \<longrightarrow> rnd (rnd ?q * 100) \<le> 100"
  proof
    assume "p \<le> t"
    with False have "?q \<le> 1" by simp
    from rnd_le [OF assms(1) this] assms(3) have "rnd ?q \<le> 1" by simp
    then have "rnd ?q * 100 \<le> 100" by simp
    from rnd_le [OF assms(1) this] assms(4) show "rnd (rnd ?q * 100) \<le> 100" by simp
  qed
  moreover have "0 < t" using False by simp
  ultimately show ?thesis using x0 by (simp add: progress_pos assms(2-4))
qed

theorem progress_bounds_witness:
  "mono (\<lambda>x::rat. x) \<and> calculateProgress (\<lambda>x. x) 3 10 = JsNum 30 \<and>
   calculateProgress (\<lambda>x. x) 10 10 = JsNum 100"
proof -
  have h: "mono (\<lambda>x::rat. x)" "(\<lambda>x::rat. x) 0 = 0" "(\<lambda>x::rat. x) 1 = 1" "(\<lambda>x::rat. x) 100 = 100"
    by (simp_all add: mono_def)
  have "calculateProgress (\<lambda>x. x) 3 10 = JsNum 30" by (simp add: calculateProgress_def js_div_def js_mul_def)
  moreover from progress_bounds [OF h, of 10 10]
  have "calculateProgress (\<lambda>x. x) 10 10 = JsNum 100" by simp
  ultimately show ?thesis using h by blast
qed

text \<open>
  C19. A load always ends: from every reachable state, once the statistics
  response and then the recent-tasks response have arrived, whatever they
  are (success, network failure, error status, unreadable body), the
  dashboard awaits nothing and has left its loading view. A response that
  does not answer the current await is ignored, so the bound of two
  responses holds in every phase.
\<close>

theorem dash_load_terminates:
  assumes "dash_reach s"
  shows "phase (dash_run s [StatsResolved r1, RecentResolved r2]) = Idle \<and>
         \<not> dash_loading (dash_run s [StatsResolved r1, RecentResolved r2])"
proof -
  have idle: "phase (dash_run s [StatsResolved r1, RecentResolved r2]) = Idle"
  proof (cases "phase s")
    case AwaitStats
    then show ?thesis
      using stats_resolved_phase [of r1 s] by (auto simp: dash_run_def recent_resolved_idle)
  qed (simp_all add: dash_run_def recent_resolved_idle)
  have "dash_inv (dash_run s [StatsResolved r1, RecentResolved r2])"
    by (rule dash_reach_inv [OF dash_reach_run [OF assms]])
  with idle show ?thesis by (simp add: dash_inv_def)
qed

theorem dash_load_terminates_witness:
  "dash_reach dash_mount \<and> phase (dash_run dash_mount
     [StatsResolved (HttpResponse 200 (JsonValue zero_stats)), RecentResolved (FetchFailed ''offline'')]) = Idle"
  using dash_load_terminates [OF dash_reach.mount] dash_reach.mount by blast

text \<open>
  C20. The loading view never sticks: in every reachable state it is shown
  exactly while one of the two requests is awaited, and Retry is ignored
  unless the error view is shown, so two loads never overlap.
\<close>

theorem dash_loading_iff_awaiting:
  assumes "dash_reach s"
  shows "(dash_view s = DashLoading \<longleftrightarrow> phase s \<noteq> Idle) \<and>
         (dash_view s \<noteq> DashError \<longrightarrow> dash_step s Retry = s)"
  using dash_reach_inv [OF assms] by (simp add: dash_inv_def dash_view_def)

theorem dash_loading_iff_awaiting_witness:
  "dash_reach dash_mount \<and> dash_view dash_mount = DashLoading \<and> phase dash_mount = AwaitStats"
proof -
  have r: "dash_reach dash_mount" by (rule dash_reach.mount)
  have "phase dash_mount = AwaitStats" by (simp add: dash_mount_def fetchDashboardData_def)
  with dash_loading_iff_awaiting [OF r] r show ?thesis by simp
qed

text \<open>
  C21. Both requests must succeed before anything is shown: the recent-tasks
  response stores the statistics read before it together with the tasks
  (\<open>null\<close> gives none) and shows the dashboard; any failure keeps both
  previous values and shows the thrown message.
\<close>

theorem recent_response_outcome:
  assumes "phase s = AwaitRecent sd"
  shows "let s' = dash_step s (RecentResolved r) in
     \<not> dash_loading s' \<and> phase s' = Idle \<and>
     (case fetch_json r of
        Some d \<Rightarrow> dash_stats s' = sd \<and> recentTasks s' = (case d of None \<Rightarrow> [] | Some ts \<Rightarrow> ts) \<and>
                  dash_error s' = dash_error s
      | None \<Rightarrow> dash_stats s' = dash_stats s \<and> recentTasks s' = recentTasks s \<and>
                dash_error s' = thrown_message ''Failed to fetch recent tasks'' r)"
  using assms
  by (cases r) (auto simp: fetch_simps fetch_simps dash_fail_def split: json_body.splits)

theorem recent_response_outcome_witness:
  "phase (dash_step dash_mount (StatsResolved (HttpResponse 200 (JsonValue zero_stats)))) = AwaitRecent zero_stats \<and>
   dash_error (dash_step (dash_step dash_mount (StatsResolved (HttpResponse 200 (JsonValue zero_stats))))
     (RecentResolved (HttpResponse 503 (JsonValue None)))) = ''Failed to fetch recent tasks''"
proof -
  have p: "phase (dash_step dash_mount (StatsResolved (HttpResponse 200 (JsonValue zero_stats)))) =
      AwaitRecent zero_stats" by code_simp
  from recent_response_outcome [OF p, of "HttpResponse 503 (JsonValue None)"] p
  show ?thesis by (simp add: Let_def fetch_simps fetch_simps fetch_simps)
qed

text \<open>
  C22. The two requests are not independent: while the statistics are
  awaited, any failed statistics response (network failure, error status,
  unreadable body) ends the load without ever issuing the recent-tasks
  request, keeps the previous statistics and shows the thrown message; when
  that message is not empty the error view is shown and Retry starts again
  from the statistics.
\<close>

theorem stats_failure_skips_recent:
  assumes "phase s = AwaitStats" and "fetch_json r = None"
  shows "let s' = dash_step s (StatsResolved r) in
     phase s' = Idle \<and> \<not> dash_loading s' \<and> dash_stats s' = dash_stats s \<and>
     dash_error s' = thrown_message ''Failed to fetch stats'' r \<and>
     (dash_error s' \<noteq> [] \<longrightarrow>
        dash_view s' = DashError \<and> phase (dash_step s' Retry) = AwaitStats \<and>
        dash_view (dash_step s' Retry) = DashLoading)"
  using assms
  by (cases r) (auto simp: fetch_simps dash_fail_def dash_view_def fetchDashboardData_def Let_def
      split: json_body.splits)

theorem stats_failure_skips_recent_witness:
  "phase dash_mount = AwaitStats \<and> fetch_json (HttpResponse 500 (JsonValue zero_stats)) = None \<and>
   dash_error (dash_step dash_mount (StatsResolved (HttpResponse 500 (JsonValue zero_stats)))) =
     ''Failed to fetch stats''"
proof -
  have p: "phase dash_mount = AwaitStats" by (simp add: dash_mount_def fetchDashboardData_def)
  have f: "fetch_json (HttpResponse 500 (JsonValue zero_stats)) = None" by (simp add: fetch_simps)
  from stats_failure_skips_recent [OF p f] p f show ?thesis by (simp add: Let_def fetch_simps)
qed

end
