(* ===== verification/Dashboard_View.thy ===== *)
theory Dashboard_View
  imports Dashboard
begin

text \<open>
  What the dashboard renders, src/frontend/src/app/page.js lines 68--216:
  the loading view, the error view with its Retry button, and the main view
  (the header links, the four statistics cards, the recent-tasks list and the
  quick actions with the status distribution). The markup is reduced to the
  values it shows: texts, numbers, progress values, badge classes and link
  targets, in the order the markup has them; progress values take the
  rounding \<open>rnd\<close> of Dashboard. The theory ends with what the
  main view shows after a successful load.
\<close>

section \<open>The main view\<close>

text \<open>The two header links (lines 95--105) and the quick actions (lines 185--190): target and label.\<close>

definition header_links :: "(string \<times> string) list" where
  "header_links = [(''/tasks/new'', ''Add Task''), (''/tasks'', ''View All Tasks'')]"

definition quick_actions :: "(string \<times> string) list" where
  "quick_actions = [(''/tasks/new'', ''Add New Task''), (''/tasks'', ''View All Tasks'')]"

text \<open>
  The statistics cards (lines 108--144): a title, the count, and a progress
  bar on every card but the first.
\<close>

record stat_card =
  card_title :: string
  card_value :: nat
  card_progress :: "js_number option"

definition stat_cards :: "(rat \<Rightarrow> rat) \<Rightarrow> stats \<Rightarrow> stat_card list" where
  "stat_cards rnd st =
     [\<lparr>card_title = ''Total Tasks'', card_value = total_tasks st, card_progress = None\<rparr>,
      \<lparr>card_title = ''Pending'', card_value = pending_tasks st,
        card_progress = Some (calculateProgress rnd (pending_tasks st) (total_tasks st))\<rparr>,
      \<lparr>card_title = ''In Progress'', card_value = in_progress_tasks st,
        card_progress = Some (calculateProgress rnd (in_progress_tasks st) (total_tasks st))\<rparr>,
      \<lparr>card_title = ''Completed'', card_value = completed_tasks st,
        card_progress = Some (calculateProgress rnd (completed_tasks st) (total_tasks st))\<rparr>]"

text \<open>
  One entry of the recent-tasks list (lines 157--174): its React key, the
  title, the description line, and the two badges with their classes and
  texts.
\<close>

record recent_row =
  rr_key :: string
  rr_title :: string
  rr_description :: string
  rr_status_class :: string
  rr_status_text :: string
  rr_priority_class :: string
  rr_priority_text :: string

definition recent_row :: "task \<Rightarrow> recent_row" where
  "recent_row t = \<lparr>rr_key = task_id t, rr_title = title t, rr_description = description_text t,
     rr_status_class = getStatusColor (status t), rr_status_text = status_label (status t),
     rr_priority_class = getPriorityColor (priority t), rr_priority_text = priority t\<rparr>"

text \<open>The body of the Recent Tasks card (lines 153--176).\<close>

datatype recent_body = NoTasksYet | RecentList "recent_row list"

definition recent_body :: "task list \<Rightarrow> recent_body" where
  "recent_body ts = (if length ts = 0 then NoTasksYet else RecentList (map recent_row ts))"

text \<open>The status distribution under the quick actions (lines 191--209): label, count, progress.\<close>

record dist_line =
  dist_label :: string
  dist_count :: nat
  dist_progress :: js_number

definition status_distribution :: "(rat \<Rightarrow> rat) \<Rightarrow> stats \<Rightarrow> dist_line list" where
  "status_distribution rnd st =
     [\<lparr>dist_label = ''Completed'', dist_count = completed_tasks st,
        dist_progress = calculateProgress rnd (completed_tasks st) (total_tasks st)\<rparr>,
      \<lparr>dist_label = ''In Progress'', dist_count = in_progress_tasks st,
        dist_progress = calculateProgress rnd (in_progress_tasks st) (total_tasks st)\<rparr>,
      \<lparr>dist_label = ''Pending'', dist_count = pending_tasks st,
        dist_progress = calculateProgress rnd (pending_tasks st) (total_tasks st)\<rparr>]"

record main_view =
  mv_links :: "(string \<times> string) list"
  mv_cards :: "stat_card list"
  mv_recent :: recent_body
  mv_actions :: "(string \<times> string) list"
  mv_distribution :: "dist_line list"

text \<open>The main view (lines 91--216), read from the \<open>stats\<close> and \<open>recentTasks\<close> state.\<close>

definition dash_main_view :: "(rat \<Rightarrow> rat) \<Rightarrow> dashboard \<Rightarrow> main_view" where
  "dash_main_view rnd s = \<lparr>mv_links = header_links, mv_cards = stat_cards rnd (dash_stats s),
     mv_recent = recent_body (recentTasks s), mv_actions = quick_actions,
     mv_distribution = status_distribution rnd (dash_stats s)\<rparr>"

section \<open>The rendered screen\<close>

text \<open>
  The component's return value (lines 68--91): the empty loading container,
  the error card with the text \<open>Error: \<close> followed by the message and a Retry
  button, or the main view.
\<close>

datatype dash_screen = LoadingScreen | ErrorScreen string | MainScreen main_view

definition dash_screen :: "(rat \<Rightarrow> rat) \<Rightarrow> dashboard \<Rightarrow> dash_screen" where
  "dash_screen rnd s =
     (if dash_loading s then LoadingScreen
      else if dash_error s \<noteq> [] then ErrorScreen (''Error: '' @ dash_error s)
      else MainScreen (dash_main_view rnd s))"

text \<open>
  The links the rendered screen offers, in document order: the header links
  (lines 98--101) and the quick actions (lines 185--189) of the main view.
\<close>

definition dash_links :: "dashboard \<Rightarrow> string list" where
  "dash_links s =
     (if dash_loading s \<or> dash_error s \<noteq> [] then []
      else map fst header_links @ map fst quick_actions)"

text \<open>A consistent set of statistics and a task, for the witnesses.\<close>

definition sample_stats :: stats where
  "sample_stats = \<lparr>total_tasks = 10, pending_tasks = 3, in_progress_tasks = 2, completed_tasks = 5\<rparr>"

definition sample_recent :: task where
  "sample_recent = \<lparr>task_id = ''r1'', title = ''Plan sprint'', description = Str [],
     status = ''in_progress'', priority = ''high'', due_date = None\<rparr>"

section \<open>Lemmas\<close>

text \<open>While a load is under way the error has been cleared by \<open>fetchDashboardData\<close>.\<close>

lemma dash_reach_error_cleared: "dash_reach s \<Longrightarrow> phase s \<noteq> Idle \<Longrightarrow> dash_error s = []"
proof (induction rule: dash_reach.induct)
  case mount
  show ?case by (simp add: dash_mount_def fetchDashboardData_def dash_initial_def)
next
  case (step s e)
  then show ?case
  proof (cases e)
    case (StatsResolved r)
    with step show ?thesis
      by (cases r) (auto simp: dash_fail_def split: if_splits json_body.splits)
  next
    case (RecentResolved r)
    with step show ?thesis
      by (cases r) (auto simp: dash_fail_def split: dash_phase.splits if_splits json_body.splits)
  next
    case Retry
    with step show ?thesis by (auto simp: fetchDashboardData_def)
  qed
qed

text \<open>The state a successful recent-tasks response leaves.\<close>

lemma recent_success_state:
  assumes "phase s = AwaitRecent sd" and "fetch_json r = Some d"
  shows "dash_step s (RecentResolved r) =
    s\<lparr>dash_stats := sd, recentTasks := (case d of None \<Rightarrow> [] | Some ts \<Rightarrow> ts),
      dash_loading := False, phase := Idle\<rparr>"
  using assms by (cases r) (auto simp: fetch_simps split: json_body.splits if_splits)

lemma description_text_nonempty: "description_text t \<noteq> []"
  by (cases "description t") (simp_all add: description_text_def)

lemma recent_body_rows:
  "recent_body ts = RecentList rows \<Longrightarrow>
     map rr_key rows = map task_id ts \<and> (\<forall>row\<in>set rows. rr_description row \<noteq> [])"
  by (auto simp: recent_body_def recent_row_def description_text_nonempty split: if_splits)

lemma main_screen_not_loading:
  "(case x of MainScreen m \<Rightarrow> P m | _ \<Rightarrow> False) \<Longrightarrow> x \<noteq> LoadingScreen"
  by (cases x) simp_all

section \<open>What the dashboard shows after a load\<close>

text \<open>
  C29. Once both requests of a load have succeeded, the dashboard shows its
  main view with the statistics just read: the four cards carry the total
  and the three counts, the last three with their progress values; the
  status distribution repeats, in reverse order, exactly the titles, counts
  and progress values of those three cards; the recent-tasks card says
  \<open>No tasks yet\<close> exactly when the response was empty or \<open>null\<close>, and otherwise
  lists the tasks in the order received, keyed by their ids, each with a
  non-empty description line (\<open>No description\<close> in place of a missing one).
\<close>

theorem loaded_dashboard_screen:
  assumes "dash_reach s" and "phase s = AwaitRecent sd" and "fetch_json r = Some d"
  shows "case dash_screen rnd (dash_step s (RecentResolved r)) of
     MainScreen m \<Rightarrow>
       map card_value (mv_cards m) =
         [total_tasks sd, pending_tasks sd, in_progress_tasks sd, completed_tasks sd] \<and>
       map card_progress (mv_cards m) =
         [None, Some (calculateProgress rnd (pending_tasks sd) (total_tasks sd)),
          Some (calculateProgress rnd (in_progress_tasks sd) (total_tasks sd)),
          Some (calculateProgress rnd (completed_tasks sd) (total_tasks sd))] \<and>
       map (\<lambda>l. (dist_label l, dist_count l, Some (dist_progress l))) (mv_distribution m) =
         rev (map (\<lambda>c. (card_title c, card_value c, card_progress c)) (tl (mv_cards m))) \<and>
       (mv_recent m = NoTasksYet \<longleftrightarrow> d = None \<or> d = Some []) \<and>
       (\<forall>ts rows. d = Some ts \<longrightarrow> mv_recent m = RecentList rows \<longrightarrow>
          map rr_key rows = map task_id ts \<and> (\<forall>row\<in>set rows. rr_description row \<noteq> []))
   | _ \<Rightarrow> False"
proof -
  let ?ts = "case d of None \<Rightarrow> [] | Some ts \<Rightarrow> ts"
  have e: "dash_error s = []" using dash_reach_error_cleared [OF assms(1)] assms(2) by simp
  have "dash_screen rnd (dash_step s (RecentResolved r)) =
      MainScreen \<lparr>mv_links = header_links, mv_cards = stat_cards rnd sd, mv_recent = recent_body ?ts,
        mv_actions = quick_actions, mv_distribution = status_distribution rnd sd\<rparr>"
    unfolding recent_success_state [OF assms(2,3)] using e by (simp add: dash_screen_def dash_main_view_def)
  moreover have "recent_body ?ts = NoTasksYet \<longleftrightarrow> d = None \<or> d = Some []"
    by (simp add: recent_body_def split: option.splits)
  ultimately show ?thesis
    by (auto simp: stat_cards_def status_distribution_def dest: recent_body_rows)
qed

theorem loaded_dashboard_screen_witness:
  "dash_reach (dash_step dash_mount (StatsResolved (HttpResponse 200 (JsonValue sample_stats)))) \<and>
   phase (dash_step dash_mount (StatsResolved (HttpResponse 200 (JsonValue sample_stats)))) =
     AwaitRecent sample_stats \<and>
   fetch_json (HttpResponse 200 (JsonValue (Some [sample_recent]))) = Some (Some [sample_recent]) \<and>
   dash_screen (\<lambda>x. x) (dash_step (dash_step dash_mount (StatsResolved (HttpResponse 200 (JsonValue sample_stats))))
     (RecentResolved (HttpResponse 200 (JsonValue (Some [sample_recent]))))) \<noteq> LoadingScreen"
proof -
  let ?s = "dash_step dash_mount (StatsResolved (HttpResponse 200 (JsonValue sample_stats)))"
  let ?r = "HttpResponse 200 (JsonValue (Some [sample_recent])) :: task list option fetch_result"
  have r: "dash_reach ?s" by (rule dash_reach.step [OF dash_reach.mount])
  have p: "phase ?s = AwaitRecent sample_stats" by code_simp
  have f: "fetch_json ?r = Some (Some [sample_recent])" by (simp add: fetch_simps)
  from loaded_dashboard_screen [OF r p f, of "\<lambda>x. x"]
  have "dash_screen (\<lambda>x. x) (dash_step ?s (RecentResolved ?r)) \<noteq> LoadingScreen"
    by (rule main_screen_not_loading)
  with r p f show ?thesis by blast
qed

end
