(* ===== verification/Routing.thy ===== *)
theory Routing
  imports Task_List Task_Edit Dashboard_View
begin

text \<open>
  Navigation between the three pages. The app directory gives the routes:
  app/page.js at \<open>/\<close>, app/tasks/page.js at \<open>/tasks\<close> and
  app/tasks/edit/[id]/page.js at \<open>/tasks/edit/<id>\<close>; navigating to a route
  mounts its page afresh, so a page's state does not survive leaving it (a
  dynamic segment \<open>[id]\<close> is one non-empty path segment). The
  browser's session history is explicit: the entries before the current one
  and the current location. A followed link (\<open><a href>\<close> on the dashboard,
  \<open><Link>\<close> on the list) and \<open>router.push\<close> add an entry; \<open>router.back()\<close>
  returns to the previous entry and mounts its page, and does nothing when
  there is none. Events reach only the page on screen: a response that
  resolves after its page was left updates nothing (React ignores state
  updates of an unmounted component).
\<close>

section \<open>Routes and links\<close>

datatype app_view = DashboardView dashboard | ListView tasks_page | EditView edit_page | NoRoute string

definition route :: "string \<Rightarrow> app_view" where
  "route p =
     (if p = ''/'' then DashboardView dash_mount
      else if p = ''/tasks'' then ListView tasks_mount
      else if take 12 p = ''/tasks/edit/'' \<and> drop 12 p \<noteq> [] \<and> CHR ''/'' \<notin> set (drop 12 p)
      then EditView (edit_mount (drop 12 p))
      else NoRoute p)"

definition edit_link :: "task \<Rightarrow> string" where
  "edit_link t = ''/tasks/edit/'' @ task_id t"

text \<open>
  The links of the list page, in document order (app/tasks/page.js lines
  119--121 and 180--189): \<open>Add Task\<close>, then one Edit link per table row,
  rendered when the page is not loading.
\<close>

definition list_links :: "tasks_page \<Rightarrow> string list" where
  "list_links s = ''/tasks/new'' # (if loading s then [] else map edit_link (tasks s))"

definition view_links :: "app_view \<Rightarrow> string list" where
  "view_links v =
     (case v of DashboardView d \<Rightarrow> dash_links d | ListView l \<Rightarrow> list_links l | _ \<Rightarrow> [])"

section \<open>Session history\<close>

record app_state =
  history :: "string list"
  location :: string
  shown :: app_view

text \<open>A URL opened in a fresh tab: no earlier entry.\<close>

definition app_open :: "string \<Rightarrow> app_state" where
  "app_open p = \<lparr>history = [], location = p, shown = route p\<rparr>"

definition router_push :: "string \<Rightarrow> app_state \<Rightarrow> app_state" where
  "router_push p a = \<lparr>history = history a @ [location a], location = p, shown = route p\<rparr>"

definition router_back :: "app_state \<Rightarrow> app_state" where
  "router_back a =
     (case rev (history a) of
        [] \<Rightarrow> a
      | p # ps \<Rightarrow> \<lparr>history = rev ps, location = p, shown = route p\<rparr>)"

fun apply_nav :: "app_state \<Rightarrow> navigation \<Rightarrow> app_state" where
  "apply_nav a (Push p) = router_push p a"
| "apply_nav a Back = router_back a"

section \<open>Events of the whole app\<close>

datatype app_event =
    OnDashboard dash_event
  | OnList tasks_event
  | OnEdit edit_event
  | FollowLink string

text \<open>
  An event of the page on screen runs its step function; the router calls
  the edit page makes during the step (its new \<open>navigations\<close>) are then
  carried out in order. A link is followed only if the screen shows it.
\<close>

fun app_step :: "app_state \<Rightarrow> app_event \<Rightarrow> app_state" where
  "app_step a (OnDashboard ev) =
     (case shown a of DashboardView d \<Rightarrow> a\<lparr>shown := DashboardView (dash_step d ev)\<rparr> | _ \<Rightarrow> a)"
| "app_step a (OnList ev) =
     (case shown a of ListView l \<Rightarrow> a\<lparr>shown := ListView (tasks_step l ev)\<rparr> | _ \<Rightarrow> a)"
| "app_step a (OnEdit ev) =
     (case shown a of
        EditView e \<Rightarrow>
          (let e' = edit_step e ev in
           foldl apply_nav (a\<lparr>shown := EditView e'\<rparr>) (drop (length (navigations e)) (navigations e')))
      | _ \<Rightarrow> a)"
| "app_step a (FollowLink p) = (if p \<in> set (view_links (shown a)) then router_push p a else a)"

definition app_run :: "app_state \<Rightarrow> app_event list \<Rightarrow> app_state" where
  "app_run a es = foldl app_step a es"

text \<open>
  The session of the witnesses: the list opened in a fresh tab, filtered to
  completed tasks, then the Edit link of a task followed and its form shown.
\<close>

definition sample_session :: app_state where
  "sample_session = app_run (app_open ''/tasks'')
     [OnList (SetStatus ''completed''),
      OnList (ListResolved 1 (HttpResponse 200 (JsonValue (Some [sample_task])))),
      OnList (ListResolved 0 (HttpResponse 200 (JsonValue (Some [sample_task])))),
      FollowLink (edit_link sample_task),
      OnEdit (GetResolved (HttpResponse 200 (JsonValue (Some sample_task))))]"

section \<open>Lemmas\<close>

lemma route_tasks [simp]: "route ''/tasks'' = ListView tasks_mount"
  by (simp add: route_def)

lemma cancel_navigations:
  "edit_view e = EditForm \<Longrightarrow> navigations (edit_step e CancelEdit) = navigations e @ [Back]"
  by simp

lemma app_step_edit_nav:
  assumes "shown a = EditView e" and "navigations (edit_step e ev) = navigations e @ [n]"
  shows "app_step a (OnEdit ev) = apply_nav (a\<lparr>shown := EditView (edit_step e ev)\<rparr>) n"
  using assms by simp

section \<open>Properties of navigation\<close>

text \<open>
  C30. The edit page's two ways out. Cancel (\<open>router.back()\<close>) returns to the
  previous entry of the history and mounts that page afresh, so a list left
  with a filter comes back unfiltered, on its first page, refetching; when
  the edit page was the first page of the session there is no entry to
  return to and nothing happens. A successful PUT (\<open>router.push('/tasks')\<close>)
  adds an entry and mounts a fresh list page, which refetches.
\<close>

theorem edit_page_navigation:
  assumes "shown a = EditView e" and "edit_view e = EditForm"
  shows "app_step a (OnEdit CancelEdit) =
           (case rev (history a) of
              [] \<Rightarrow> a\<lparr>shown := EditView (edit_step e CancelEdit)\<rparr>
            | p # ps \<Rightarrow> \<lparr>history = rev ps, location = p, shown = route p\<rparr>) \<and>
         (puts e \<noteq> [] \<longrightarrow> response_ok r \<longrightarrow>
            app_step a (OnEdit (PutResolved r)) =
              \<lparr>history = history a @ [location a], location = ''/tasks'', shown = ListView tasks_mount\<rparr>)"
proof
  show "app_step a (OnEdit CancelEdit) =
           (case rev (history a) of
              [] \<Rightarrow> a\<lparr>shown := EditView (edit_step e CancelEdit)\<rparr>
            | p # ps \<Rightarrow> \<lparr>history = rev ps, location = p, shown = route p\<rparr>)"
    using app_step_edit_nav [OF assms(1) cancel_navigations [OF assms(2)]]
    by (simp add: router_back_def split: list.splits)
  show "puts e \<noteq> [] \<longrightarrow> response_ok r \<longrightarrow>
            app_step a (OnEdit (PutResolved r)) =
              \<lparr>history = history a @ [location a], location = ''/tasks'', shown = ListView tasks_mount\<rparr>"
  proof (intro impI)
    assume "puts e \<noteq> []" and "response_ok r"
    then have "navigations (edit_step e (PutResolved r)) = navigations e @ [Push ''/tasks'']"
      by (rule put_response_outcome_nav)
    from app_step_edit_nav [OF assms(1) this] show "app_step a (OnEdit (PutResolved r)) =
              \<lparr>history = history a @ [location a], location = ''/tasks'', shown = ListView tasks_mount\<rparr>"
      by (simp add: router_push_def)
  qed
qed

theorem edit_page_navigation_witness:
  "shown (app_step sample_session (OnEdit Submit)) = EditView (edit_step (edit_step (edit_mount ''t1'') (GetResolved (HttpResponse 200 (JsonValue (Some sample_task))))) Submit) \<and>
   edit_view (edit_step (edit_step (edit_mount ''t1'') (GetResolved (HttpResponse 200 (JsonValue (Some sample_task))))) Submit) = EditForm \<and> puts (edit_step (edit_step (edit_mount ''t1'') (GetResolved (HttpResponse 200 (JsonValue (Some sample_task))))) Submit) \<noteq> [] \<and>
   response_ok (HttpResponse 200 (JsonValue None) :: js_str fetch_result) \<and>
   location (app_step (app_step sample_session (OnEdit Submit)) (OnEdit CancelEdit)) = ''/tasks'' \<and>
   shown (app_step (app_step sample_session (OnEdit Submit)) (OnEdit CancelEdit)) = ListView tasks_mount \<and>
   filter_status (filters tasks_mount) = ''all''"
proof -
  let ?a = "app_step sample_session (OnEdit Submit)" and ?e = "edit_step (edit_step (edit_mount ''t1'') (GetResolved (HttpResponse 200 (JsonValue (Some sample_task))))) Submit"
  have s: "shown ?a = EditView ?e" by code_simp
  have v: "edit_view ?e = EditForm" by code_simp
  have p: "puts ?e \<noteq> []" by code_simp
  have r: "response_ok (HttpResponse 200 (JsonValue None) :: js_str fetch_result)" by (simp add: fetch_simps)
  have h: "rev (history ?a) = [''/tasks'']" by code_simp
  have f: "filter_status (filters tasks_mount) = ''all''" by code_simp
  from edit_page_navigation [OF s v, of "HttpResponse 200 (JsonValue None)"] h
  have "app_step ?a (OnEdit CancelEdit) = \<lparr>history = [], location = ''/tasks'', shown = ListView tasks_mount\<rparr>"
    by simp
  with s v p r f show ?thesis by simp
qed

end
