(* ===== verification/Theme_Provider.thy ===== *)
theory Theme_Provider
  imports Prelude
begin

text \<open>
  The theme store, src/frontend/src/components/theme-provider.js
  (\<open>ThemeProvider\<close>, \<open>ThemeContext\<close>, \<open>useTheme\<close>). The provider's React state
  is the theme string; the browser state it touches is explicit: the
  \<open>localStorage\<close> map, whether the document root carries the class
  \<open>dark\<close>, the log of \<open>classList\<close> calls, and what \<open>window.matchMedia\<close>
  reports. The context value a consumer receives is the record
  \<open>theme_ctx\<close>, generic in the state it reads and updates.
\<close>

section \<open>Browser and provider state\<close>

datatype class_op = AddDark | RemoveDark

record browser =
  storage :: "string \<Rightarrow> string option"
  dark_class :: bool
  class_ops :: "class_op list"
  has_matchMedia :: bool
  prefers_dark :: bool

record theme_store =
  theme :: string
  browser :: browser
  provider_mounted :: bool

definition theme_key :: string where
  "theme_key = ''theme''"

definition provider_initial :: "browser \<Rightarrow> theme_store" where
  "provider_initial b = \<lparr>theme = ''light'', browser = b, provider_mounted = False\<rparr>"

section \<open>Operations\<close>

text \<open>
  \<open>setTheme\<close> (lines 23--31): persist, update the state, and add or remove
  the class, in one synchronous call.
\<close>

definition set_class :: "string \<Rightarrow> browser \<Rightarrow> browser" where
  "set_class v b =
     (if v = ''dark'' then b\<lparr>dark_class := True, class_ops := class_ops b @ [AddDark]\<rparr>
      else b\<lparr>dark_class := False, class_ops := class_ops b @ [RemoveDark]\<rparr>)"

definition setTheme :: "string \<Rightarrow> theme_store \<Rightarrow> theme_store" where
  "setTheme v s =
     s\<lparr>browser := set_class v ((browser s)\<lparr>storage := (storage (browser s))(theme_key \<mapsto> v)\<rparr>),
       theme := v\<rparr>"

text \<open>
  The mount effect (lines 16--21): the saved value if it is truthy,
  otherwise the system preference; \<open>window.matchMedia &&\<close> guards a browser
  without media queries.
\<close>

definition initial_theme :: "browser \<Rightarrow> string" where
  "initial_theme b =
     js_or (storage b theme_key) (if has_matchMedia b \<and> prefers_dark b then ''dark'' else ''light'')"

definition provider_mount :: "theme_store \<Rightarrow> theme_store" where
  "provider_mount s =
     (if provider_mounted s then s
      else (setTheme (initial_theme (browser s)) s)\<lparr>provider_mounted := True\<rparr>)"

section \<open>The context interface\<close>

text \<open>
  What \<open>useTheme()\<close> returns: the current theme and a setter. Inside the
  provider it is the provider's state and \<open>setTheme\<close>; outside, the default
  value of \<open>createContext\<close> (lines 5--8): the theme \<open>system\<close> and a setter that
  does nothing.
\<close>

record 's theme_ctx =
  ctx_theme :: "'s \<Rightarrow> string"
  ctx_set :: "string \<Rightarrow> 's \<Rightarrow> 's"

definition provider_ctx :: "theme_store theme_ctx" where
  "provider_ctx = \<lparr>ctx_theme = theme, ctx_set = setTheme\<rparr>"

definition default_ctx :: "'s theme_ctx" where
  "default_ctx = \<lparr>ctx_theme = (\<lambda>_. ''system''), ctx_set = (\<lambda>_ s. s)\<rparr>"

text \<open>A lawful setter: the theme read back after setting is the theme set.\<close>

definition lawful_ctx :: "'s theme_ctx \<Rightarrow> bool" where
  "lawful_ctx c \<longleftrightarrow> (\<forall>v s. ctx_theme c (ctx_set c v s) = v)"

section \<open>Lemmas\<close>

definition theme_synced :: "theme_store \<Rightarrow> bool" where
  "theme_synced s \<longleftrightarrow>
     (dark_class (browser s) \<longleftrightarrow> theme s = ''dark'') \<and> storage (browser s) theme_key = Some (theme s)"

lemma setTheme_fields [simp]:
  "theme (setTheme v s) = v"
  "storage (browser (setTheme v s)) = (storage (browser s))(theme_key \<mapsto> v)"
  "dark_class (browser (setTheme v s)) \<longleftrightarrow> v = ''dark''"
  "class_ops (browser (setTheme v s)) = class_ops (browser s) @ [if v = ''dark'' then AddDark else RemoveDark]"
  "has_matchMedia (browser (setTheme v s)) = has_matchMedia (browser s)"
  "prefers_dark (browser (setTheme v s)) = prefers_dark (browser s)"
  "provider_mounted (setTheme v s) = provider_mounted s"
  by (simp_all add: setTheme_def set_class_def)

lemma setTheme_synced: "theme_synced (setTheme v s)"
  by (simp add: theme_synced_def)

lemma provider_ctx_lawful: "lawful_ctx provider_ctx"
  by (simp add: lawful_ctx_def provider_ctx_def)

end
