(* ===== verification/Header.thy ===== *)
theory Header
  imports Theme_Provider
begin

text \<open>
  The header's theme button, src/frontend/src/components/header.js
  (\<open>ThemeToggleButton\<close>, \<open>Header\<close>). The button is a client of the context
  interface of \<open>Theme_Provider\<close>: its view and its click are defined for any
  context value \<open>'s theme_ctx\<close> and its own \<open>mounted\<close> flag, and its lemmas
  hold for every lawful context.
\<close>

section \<open>The button\<close>

datatype icon = Moon | Sun

datatype button_view = Placeholder | ToggleButton icon

text \<open>Lines 16--30: a placeholder until mounted, then the icon for the theme.\<close>

definition button_view :: "'s theme_ctx \<Rightarrow> bool \<Rightarrow> 's \<Rightarrow> button_view" where
  "button_view c mounted s =
     (if \<not> mounted then Placeholder
      else ToggleButton (if ctx_theme c s = ''light'' then Moon else Sun))"

definition toggle_target :: "string \<Rightarrow> string" where
  "toggle_target t = (if t = ''dark'' then ''light'' else ''dark'')"

text \<open>The button's \<open>onClick\<close> (line 24); the placeholder has no handler.\<close>

definition header_click :: "'s theme_ctx \<Rightarrow> bool \<Rightarrow> 's \<Rightarrow> 's" where
  "header_click c mounted s = (if mounted then ctx_set c (toggle_target (ctx_theme c s)) s else s)"

text \<open>A browser with nothing stored and no media queries, for the witnesses.\<close>

definition fresh_browser :: browser where
  "fresh_browser = \<lparr>storage = Map.empty, dark_class = False, class_ops = [],
     has_matchMedia = False, prefers_dark = False\<rparr>"

section \<open>Lemmas for any lawful context\<close>

lemma toggle_target_cases: "toggle_target t = ''light'' \<or> toggle_target t = ''dark''"
  by (simp add: toggle_target_def)

lemma lawful_ctx_set: "lawful_ctx c \<Longrightarrow> ctx_theme c (ctx_set c v s) = v"
  by (simp add: lawful_ctx_def)

text \<open>
  C23. For every lawful context, a click on the mounted button sets the theme
  to light when it is dark and to dark otherwise, so a light theme becomes
  dark and a dark one light, and two clicks restore a light or dark theme;
  before mounting a click does nothing.
\<close>

theorem header_click_toggles:
  assumes "lawful_ctx c"
  shows "ctx_theme c (header_click c True s) = (if ctx_theme c s = ''dark'' then ''light'' else ''dark'') \<and>
         (ctx_theme c s = ''light'' \<or> ctx_theme c s = ''dark'' \<longrightarrow>
            ctx_theme c (header_click c True (header_click c True s)) = ctx_theme c s) \<and>
         header_click c False s = s"
  using assms by (auto simp: header_click_def lawful_ctx_set toggle_target_def)

theorem header_click_toggles_witness:
  "lawful_ctx provider_ctx \<and>
   ctx_theme provider_ctx (header_click provider_ctx True (provider_initial fresh_browser)) = ''dark''"
proof -
  have l: "lawful_ctx provider_ctx" by (rule provider_ctx_lawful)
  have "ctx_theme provider_ctx (provider_initial fresh_browser) = ''light''"
    by (simp add: provider_ctx_def provider_initial_def)
  with header_click_toggles [OF l, of "provider_initial fresh_browser"] l show ?thesis
    by simp
qed

end
