(* ===== verification/Spec2Isabelle.thy ===== *)
theory Spec2Isabelle
  imports Routing Header
begin

text \<open>
  \<^bold>\<open>Verification of the task-management dashboard client.\<close>
  The repository is a Next.js client (src/frontend/src) of a REST task
  collection. Its parts, leaf to root, and the theory that models each:

  \<^item> \<^bold>\<open>Prelude\<close>: what the browser hands the code (the results of
    \<open>fetch\<close> as \<open>fetch_result\<close>, JSON bodies as \<open>json_body\<close>, \<open>response.ok\<close> as
    \<open>http_ok\<close>), JavaScript truthiness of optional strings (\<open>js_truthy\<close>,
    \<open>js_or\<close> for \<open>x || d\<close>), the \<open>task\<close> record the collaborator sends,
    \<open>status_label\<close> (\<open>replace('_', ' ')\<close>) and \<open>del_at\<close> for removing a
    settled request from the list of requests in flight.
  \<^item> \<^bold>\<open>Url_Params\<close>: the query strings of app/tasks/page.js: the browser's
    \<open>URLSearchParams\<close> (\<open>params_append\<close>, \<open>params_to_string\<close> with the
    urlencoded byte serializer \<open>encode_byte\<close>/\<open>form_encode\<close>) and number-to-string
    conversion (\<open>decimal\<close>). The collaborator's urlencoded parser
    (\<open>parse_query\<close>, \<open>pct_decode\<close>, \<open>split_on\<close>) is the abstract specification
    of what a query means; \<open>parse_query_params_to_string\<close> proves the round
    trip for every parameter list and \<open>parse_decimal_decimal\<close> for numbers.
  \<^item> \<^bold>\<open>Task_List\<close>: \<open>TasksPage\<close> of app/tasks/page.js. Its state hooks are
    the record \<open>tasks_page\<close>, with the requests in flight (\<open>pending\<close>, the
    outstanding \<open>fetch\<close> promises) made explicit. Each handler is a function:
    \<open>fetchTasks\<close> (split at its \<open>await\<close> into \<open>issue_fetch\<close> and
    \<open>list_resolved\<close>), \<open>setSearchTerm\<close>, \<open>setStatusFilter\<close>,
    \<open>setPriorityFilter\<close>, \<open>prevPage\<close>, \<open>nextPage\<close> (with the buttons'
    disabled conditions), \<open>openDeleteDialog\<close>, \<open>handleDelete\<close> (split into
    \<open>handleDelete\<close> and \<open>delete_resolved\<close>), \<open>confirmDelete\<close> and
    \<open>cancelDelete\<close> (the dialog's Continue and Cancel), and the table body
    (\<open>table_body\<close>, \<open>task_row\<close>, the badge variants, \<open>formatDate\<close>).
    \<open>tasks_step\<close> dispatches an event (a UI action or the settling of the
    i-th request in flight, in any order) and \<open>tasks_reach\<close> is the set of
    reachable states, starting from \<open>tasks_mount\<close>, the state after the
    mount effect.
  \<^item> \<^bold>\<open>Task_Edit\<close>: \<open>EditTaskPage\<close> of app/tasks/edit/[id]/page.js as the
    record \<open>edit_page\<close>: \<open>get_resolved\<close> (\<open>fetchTask\<close>), \<open>handleChange\<close>,
    \<open>handleSubmit\<close> (gated by \<open>submit_allowed\<close>: the browser's required
    title and the disabled button), \<open>put_resolved\<close>, the view \<open>edit_view\<close>,
    and the PUT body \<open>put_body\<close> (\<open>JSON.stringify\<close>); router calls and
    alerts are logged in the state. \<open>edit_step\<close>, \<open>edit_reach\<close>.
  \<^item> \<^bold>\<open>Dashboard\<close>: \<open>Dashboard\<close> of app/page.js as the record \<open>dashboard\<close>:
    \<open>fetchDashboardData\<close> with its two sequential awaits (the field
    \<open>phase\<close>), \<open>stats_resolved\<close>, \<open>recent_resolved\<close>, \<open>dash_fail\<close> (catch
    and finally), the Retry button, \<open>dash_view\<close>, \<open>calculateProgress\<close> and
    the badge colours.
  \<^item> \<^bold>\<open>Dashboard_View\<close>: what app/page.js renders (\<open>dash_screen\<close>): the
    loading container, the error text with Retry, and the main view
    (\<open>dash_main_view\<close>: header links, \<open>stat_cards\<close>, \<open>recent_body\<close> of
    \<open>recent_row\<close>s, \<open>quick_actions\<close>, \<open>status_distribution\<close>).
  \<^item> \<^bold>\<open>Routing\<close>: the app directory's routes (\<open>route\<close>), the links each
    page shows (\<open>list_links\<close>, \<open>dash_links\<close>), the browser's session history
    (\<open>app_state\<close>, \<open>router_push\<close>, \<open>router_back\<close>), and \<open>app_step\<close>, which
    delivers an event to the page on screen and carries out the router calls
    it makes. The routing and history are the framework's documented
    behaviour (Next.js and the browser), modelled only as far as the edit
    page's router calls need them.
  \<^item> \<^bold>\<open>Theme_Provider\<close>: components/theme-provider.js: the provider's state
    and the browser state it writes (\<open>localStorage\<close>, the \<open>dark\<close> class,
    the log of \<open>classList\<close> calls) as \<open>theme_store\<close>, \<open>setTheme\<close>,
    \<open>provider_mount\<close>, and the context value \<open>theme_ctx\<close> (\<open>provider_ctx\<close>
    inside the provider, \<open>default_ctx\<close> outside).
  \<^item> \<^bold>\<open>Header\<close>: components/header.js: the theme button as a client of the
    context interface (\<open>button_view\<close>, \<open>header_click\<close>), with its lemma for
    every lawful context.
  \<^item> This theory composes the provider and the button (\<open>theme_app\<close>,
    \<open>theme_step\<close>, \<open>theme_reach\<close>) and proves the properties of the theme
    system, which span both files, and the property relating the two pages'
    badge styles. The composition (the header inside the provider) is an
    assumption about the application layout, which is not in the sources.

  The pages interact only through the collaborator and through navigation
  (each page mounts afresh and refetches); the theme system is the only state
  shared across views.

  \<^bold>\<open>What is proved.\<close> For each page: an invariant of the reachable states
  (the loading view always has a request in flight; the confirmation dialog
  always holds a task; at most one PUT in flight and a PUT body without
  description only for a task read without one; the dashboard's loading view
  exactly while it awaits), the outcome of every response on every branch
  (success, network failure, non-success status, unreadable body), the effect
  of each user action, and concrete scenarios from the spec. Liveness and
  termination: letting the list's requests settle ends its loading view, and
  a dashboard load ends after at most its two responses, whatever they are.
  The list request is proved to carry exactly the query state through the
  serializer and the collaborator's parser, and the page to refine the spec's
  query-state controller. The dashboard's main view after a load shows the
  statistics read and the recent tasks with their fallbacks; the theme stays
  light or dark when storage starts so, and the header button always flips
  it. Several theorems record behaviour that differs from the spec or is a
  defect: stale responses shown after a filter change, a delete's outcome
  closing whatever dialog is open and refetching with the captured query,
  Cancel not clearing the held task, not-found and network failure
  conflated, a PUT body that drops a description absent from the task read,
  sequential dashboard requests, progress values that are percentages (100
  for a complete part, where the spec's fraction is 1), and Cancel on the
  edit page going back in the browser history, which loses the list's
  query.

  \<^bold>\<open>Modelling choices.\<close> An effect runs as part of the state change that
  triggers it, and a handler runs to its first \<open>await\<close> atomically; what
  follows the \<open>await\<close> runs when the event for that request is dispatched.
  Requests in flight are unbounded lists, so any interleaving of responses is
  a sequence of events; no fuel is needed, every function is total and
  structurally recursive, and a load's termination is stated as the number of
  responses after which it has ended; the list's requests are settled, with
  any answers of the collaborator and network, by \<open>settle_oldest\<close>, whose
  fuel is the number of responses delivered (twice the requests in flight
  suffice, since a delete's completion issues one list request). Page
  numbers and counts are \<open>nat\<close> (JavaScript numbers stay exact integers far
  beyond any reachable page). \<open>calculateProgress\<close> works on JavaScript
  numbers (\<open>js_number\<close>: a finite value, \<open>NaN\<close> or \<open>Infinity\<close>), with
  division by zero as in IEEE arithmetic and every finite result passed
  through a rounding function \<open>rnd\<close>; the theorems hold for every rounding
  that is monotone and exact on 0, 1 and 100, as round-to-nearest binary64
  is. Strings are byte strings (\<open>char\<close> is a byte), so the serializer works
  on the UTF-8 encoding the browser produces. JSON bodies are already parsed
  values; a task's description is \<open>json_str\<close>, which tells an absent key
  (\<open>Absent\<close>, read as \<open>undefined\<close>) from \<open>null\<close> (\<open>Null\<close>), as
  \<open>JSON.stringify\<close> does when it writes the PUT body.
  Markup is reduced to the values it shows (texts, counts, progress values,
  badge classes, link targets) in document order.

  \<^bold>\<open>Abstract specification.\<close> The spec's query state of the list view
  controller is \<open>query_state\<close> with the request parameters
  \<open>spec_request_params\<close> (Task_List); \<open>list_query_refinement\<close> shows that
  the page implements it through \<open>abs_query\<close>.

  \<^bold>\<open>Not modelled.\<close> Class names and layout of the markup beyond the values
  above, the locale formatting inside \<open>formatDate\<close> (a parameter), the
  \<open>/tasks/new\<close> page and the application layout (not in the sources: the
  route has no page), the browser's own back and forward buttons, the UI
  library components (only their documented close-on-Continue/Cancel
  behaviour is used), and the collaborator itself, of which only the query
  parser is specified.
\<close>

section \<open>The theme system: provider and header button together\<close>

text \<open>
  The provider wraps the pages and the header; the header's button reads the
  provider's context. Both mount effects run in one commit, the child's
  (the button's \<open>setMounted(true)\<close>) before the parent's (the provider's
  initialisation), before any user input; a click reaches the provider's
  \<open>setTheme\<close> through the context.
\<close>

record theme_app =
  store :: theme_store
  button_mounted :: bool

datatype theme_event = MountApp | ClickToggle

definition theme_app_initial :: "browser \<Rightarrow> theme_app" where
  "theme_app_initial b = \<lparr>store = provider_initial b, button_mounted = False\<rparr>"

fun theme_step :: "theme_app \<Rightarrow> theme_event \<Rightarrow> theme_app" where
  "theme_step s MountApp =
     (if button_mounted s then s else \<lparr>store = provider_mount (store s), button_mounted = True\<rparr>)"
| "theme_step s ClickToggle = s\<lparr>store := header_click provider_ctx (button_mounted s) (store s)\<rparr>"

definition theme_run :: "theme_app \<Rightarrow> theme_event list \<Rightarrow> theme_app" where
  "theme_run s es = foldl theme_step s es"

inductive theme_reach :: "browser \<Rightarrow> theme_app \<Rightarrow> bool" for b where
  init: "theme_reach b (theme_app_initial b)"
| step: "theme_reach b s \<Longrightarrow> theme_reach b (theme_step s e)"

definition theme_app_inv :: "browser \<Rightarrow> theme_app \<Rightarrow> bool" where
  "theme_app_inv b s \<longleftrightarrow>
     (button_mounted s \<longleftrightarrow> provider_mounted (store s)) \<and>
     (provider_mounted (store s) \<longrightarrow> theme_synced (store s)) \<and>
     (\<not> provider_mounted (store s) \<longrightarrow> store s = provider_initial b)"

definition no_storage_dark_os :: browser where
  "no_storage_dark_os = \<lparr>storage = Map.empty, dark_class = False, class_ops = [],
     has_matchMedia = True, prefers_dark = True\<rparr>"

lemma theme_step_inv: "theme_app_inv b s \<Longrightarrow> theme_app_inv b (theme_step s e)"
proof (cases e)
  case MountApp
  assume "theme_app_inv b s"
  then show ?thesis using MountApp
    by (auto simp: theme_app_inv_def provider_mount_def theme_synced_def provider_initial_def)
next
  case ClickToggle
  assume "theme_app_inv b s"
  then show ?thesis using ClickToggle
    by (auto simp: theme_app_inv_def header_click_def provider_ctx_def setTheme_synced)
qed

lemma theme_reach_inv: "theme_reach b s \<Longrightarrow> theme_app_inv b s"
proof (induction rule: theme_reach.induct)
  case init
  show ?case by (simp add: theme_app_inv_def theme_app_initial_def provider_initial_def)
next
  case (step s e)
  from step.IH show ?case by (rule theme_step_inv)
qed

lemma theme_reach_run: "theme_reach b s \<Longrightarrow> theme_reach b (theme_run s es)"
  by (induction es arbitrary: s) (simp_all add: theme_run_def theme_reach.step)

text \<open>
  C24. The persisted value, the provider's state and the class on the
  document root never disagree: in every reachable state after mounting the
  root has the class \<open>dark\<close> exactly when the theme is dark and the storage
  holds the theme; before mounting nothing has been touched.
\<close>

theorem theme_in_sync:
  assumes "theme_reach b s"
  shows "(button_mounted s \<longrightarrow>
            (dark_class (browser (store s)) \<longleftrightarrow> theme (store s) = ''dark'') \<and>
            storage (browser (store s)) theme_key = Some (theme (store s))) \<and>
         (\<not> button_mounted s \<longrightarrow> browser (store s) = b \<and> theme (store s) = ''light'')"
  using theme_reach_inv [OF assms]
  by (auto simp: theme_app_inv_def theme_synced_def provider_initial_def)

theorem theme_in_sync_witness:
  "theme_reach no_storage_dark_os (theme_run (theme_app_initial no_storage_dark_os) [MountApp, ClickToggle]) \<and>
   theme (store (theme_run (theme_app_initial no_storage_dark_os) [MountApp, ClickToggle])) = ''light'' \<and>
   \<not> dark_class (browser (store (theme_run (theme_app_initial no_storage_dark_os) [MountApp, ClickToggle])))"
proof -
  let ?s = "theme_run (theme_app_initial no_storage_dark_os) [MountApp, ClickToggle]"
  have r: "theme_reach no_storage_dark_os ?s"
    by (rule theme_reach_run [OF theme_reach.init])
  have m: "button_mounted ?s" by code_simp
  have t: "theme (store ?s) = ''light''" by code_simp
  from theme_in_sync [OF r] m t r show ?thesis by simp
qed

text \<open>
  C25. Mounting initialises the theme once: the stored value when it is a
  non-empty string, otherwise dark exactly when the browser has media
  queries and prefers a dark scheme; the value is written back to storage and
  exactly one class operation is made, adding the class for dark and removing
  it for anything else.
\<close>

theorem mount_initialises_theme:
  "let s = theme_step (theme_app_initial b) MountApp;
       fallback = (if has_matchMedia b \<and> prefers_dark b then ''dark'' else ''light'');
       t = (case storage b theme_key of None \<Rightarrow> fallback | Some v \<Rightarrow> if v = [] then fallback else v) in
   theme (store s) = t \<and> storage (browser (store s)) theme_key = Some t \<and>
   class_ops (browser (store s)) = class_ops b @ [if t = ''dark'' then AddDark else RemoveDark] \<and>
   button_view provider_ctx (button_mounted s) (store s) = ToggleButton (if t = ''light'' then Moon else Sun)"
  by (cases "storage b theme_key")
    (simp_all add: Let_def theme_app_initial_def provider_mount_def provider_initial_def
      initial_theme_def button_view_def provider_ctx_def)

text \<open>
  C26. The theme keeps the type the spec gives it: when the stored value is
  absent, empty, \<open>light\<close> or \<open>dark\<close>, the theme is \<open>light\<close> or \<open>dark\<close> in every
  reachable state, and once mounted the storage holds one of the two. Any
  other stored value is taken as the theme as it is.
\<close>

theorem theme_light_or_dark:
  assumes "theme_reach b s"
    and "storage b theme_key \<in> {None, Some [], Some ''light'', Some ''dark''}"
  shows "theme (store s) \<in> {''light'', ''dark''} \<and>
         (button_mounted s \<longrightarrow> storage (browser (store s)) theme_key \<in> {Some ''light'', Some ''dark''})"
  using assms
proof (induction rule: theme_reach.induct)
  case init
  show ?case by (simp add: theme_app_initial_def provider_initial_def)
next
  case (step s e)
  have inv: "theme_app_inv b s" using step.hyps by (rule theme_reach_inv)
  show ?case
  proof (cases e)
    case MountApp
    show ?thesis
    proof (cases "button_mounted s")
      case True
      with step MountApp show ?thesis by simp
    next
      case False
      with inv have "store s = provider_initial b" by (simp add: theme_app_inv_def)
      with False MountApp step.prems show ?thesis
        by (auto simp: provider_mount_def provider_initial_def initial_theme_def)
    qed
  next
    case ClickToggle
    with step toggle_target_cases [of "theme (store s)"] show ?thesis
      by (auto simp: header_click_def provider_ctx_def)
  qed
qed

theorem theme_light_or_dark_witness:
  "theme_reach no_storage_dark_os (theme_run (theme_app_initial no_storage_dark_os) [MountApp, ClickToggle]) \<and>
   storage no_storage_dark_os theme_key \<in> {None, Some [], Some ''light'', Some ''dark''} \<and>
   theme (store (theme_run (theme_app_initial no_storage_dark_os) [MountApp, ClickToggle])) \<in> {''light'', ''dark''}"
proof -
  let ?s = "theme_run (theme_app_initial no_storage_dark_os) [MountApp, ClickToggle]"
  have r: "theme_reach no_storage_dark_os ?s" by (rule theme_reach_run [OF theme_reach.init])
  have b: "storage no_storage_dark_os theme_key \<in> {None, Some [], Some ''light'', Some ''dark''}"
    by (simp add: no_storage_dark_os_def)
  from theme_light_or_dark [OF r b] r b show ?thesis by simp
qed

section \<open>Properties across the pages\<close>

text \<open>
  C28. The list page's badge variants and the dashboard's badge colours make
  the same distinctions: two statuses get the same variant exactly when they
  get the same colour, and likewise for priorities (completed, in progress
  and everything else; high, medium and everything else).
\<close>

theorem badge_styles_agree:
  "(getStatusBadgeVariant a = getStatusBadgeVariant b \<longleftrightarrow> getStatusColor a = getStatusColor b) \<and>
   (getPriorityBadgeVariant a = getPriorityBadgeVariant b \<longleftrightarrow> getPriorityColor a = getPriorityColor b)"
  by (simp add: getStatusBadgeVariant_def getStatusColor_def getPriorityBadgeVariant_def
      getPriorityColor_def)

end
